theory Spec2Isabelle
  imports Complex_Main "HOL-Library.Multiset" "HOL-Library.Char_ord" "HOL-Library.List_Lexorder"
begin

section \<open>Data model\<close>

text \<open>
  The functions of \<^verbatim>\<open>utils.py\<close> work on pandas data frames. A frame is modelled by its
  row labels, its column labels and its cells, row by row. A missing cell (NaN) of an
  object or float frame is \<open>None\<close>. Exceptions of the library are values of \<open>error\<close>.
\<close>

datatype error = ValueError | IndexError | KeyError | AttributeError

record ('i, 'c, 'v) frame =
  index :: "'i list"
  columns :: "'c list"
  rows :: "'v list list"

text \<open>
  A row label of a table handed to the filters is an integer (as in the default index of a
  frame) or a timestamp, given by its ordinal on the time line.
\<close>

datatype row_label = Int_label int | Time_label int

definition is_int_label :: "row_label \<Rightarrow> bool" where
  "is_int_label l = (case l of Int_label _ \<Rightarrow> True | Time_label _ \<Rightarrow> False)"

definition is_time_label :: "row_label \<Rightarrow> bool" where
  "is_time_label l = (case l of Int_label _ \<Rightarrow> False | Time_label _ \<Rightarrow> True)"

text \<open>
  A timestamp is a calendar date and a time of day, in seconds after midnight (a date of
  the data model is a timestamp at midnight). A month-start timestamp, the label of a row
  of a \<^verbatim>\<open>freq="MS"\<close> index, is modelled by the ordinal of its month,
  \<open>12 * year + month - 1\<close>.
\<close>

record timestamp =
  year :: int
  month :: nat
  day :: nat
  time_of_day :: nat

text \<open>One row of the input frame, as \<^verbatim>\<open>df.itertuples()\<close> yields it: the fields are named
  after the column parameters of \<^verbatim>\<open>breakdown_by_month\<close>. \<open>end_column = None\<close> is \<^verbatim>\<open>pd.NaT\<close>.\<close>

record 'c item =
  key_column :: string
  value_column :: 'c
  start_column :: timestamp
  end_column :: "timestamp option"

section \<open>Calendar\<close>

definition to_period_M :: "timestamp \<Rightarrow> int" where
  \<comment> \<open>\<^verbatim>\<open>t.normalize().to_period("M").to_timestamp("D", "S")\<close>: the first day of the month of \<open>t\<close>\<close>
  "to_period_M t = year t * 12 + int (month t) - 1"

definition date_range_MS :: "int \<Rightarrow> int \<Rightarrow> int list" where
  \<comment> \<open>\<^verbatim>\<open>pd.date_range(first_month, last_month, freq="MS")\<close>; empty when the end is before the start\<close>
  "date_range_MS first_month last_month = [first_month..last_month]"

definition is_leap :: "int \<Rightarrow> bool" where
  "is_leap y = (y mod 4 = 0 \<and> (y mod 100 \<noteq> 0 \<or> y mod 400 = 0))"

definition days_in_month :: "int \<Rightarrow> nat" where
  \<comment> \<open>number of days of the month with ordinal \<open>m\<close>\<close>
  "days_in_month m =
     (let y = m div 12; mo = nat (m mod 12) + 1
      in if mo = 2 then (if is_leap y then 29 else 28)
         else if mo = 4 \<or> mo = 6 \<or> mo = 9 \<or> mo = 11 then 30 else 31)"

definition ts_le :: "timestamp \<Rightarrow> timestamp \<Rightarrow> bool" where
  \<comment> \<open>not later: by month, then day, then time of day\<close>
  "ts_le a b =
     (to_period_M a < to_period_M b
      \<or> (to_period_M a = to_period_M b
          \<and> (day a < day b \<or> (day a = day b \<and> time_of_day a \<le> time_of_day b))))"

definition month_days :: "int \<Rightarrow> timestamp list" where
  \<comment> \<open>\<^verbatim>\<open>pd.date_range(month_start, month_start + offsets.MonthEnd(1), freq="D")\<close>: the
      midnights of the days of the month\<close>
  "month_days m =
     map (\<lambda>d. \<lparr>year = m div 12, month = nat (m mod 12) + 1, day = d, time_of_day = 0\<rparr>) [1..<days_in_month m + 1]"

definition date_range_D :: "timestamp \<Rightarrow> timestamp \<Rightarrow> timestamp list" where
  \<comment> \<open>\<^verbatim>\<open>pd.date_range(start_date, end_date, freq="D")\<close>: the start and the timestamps whole
      days after it, at the start's time of day, that are not later than the end\<close>
  "date_range_D s e =
     filter (\<lambda>t. ts_le s t \<and> ts_le t e)
       (map (\<lambda>d. d\<lparr>time_of_day := time_of_day s\<rparr>)
            (concat (map month_days [to_period_M s..to_period_M e])))"

definition intersection :: "timestamp list \<Rightarrow> timestamp list \<Rightarrow> timestamp list" where
  \<comment> \<open>\<^verbatim>\<open>Index.intersection\<close> of two daily ranges: the timestamps that are in both\<close>
  "intersection xs ys = filter (\<lambda>t. t \<in> set ys) xs"

section \<open>Library operations on frames\<close>

definition cell_of :: "'c list \<Rightarrow> 'v option list \<Rightarrow> 'c \<Rightarrow> 'v option" where
  \<comment> \<open>the cell of a row under a column label, NaN when the frame has no such column\<close>
  "cell_of cs r c = (case map_of (zip cs r) c of None \<Rightarrow> None | Some v \<Rightarrow> v)"

definition reindex_rows :: "'c list \<Rightarrow> ('i, 'c, 'v option) frame \<Rightarrow> 'v option list list" where
  "reindex_rows cs f = map (\<lambda>r. map (cell_of (columns f) r) cs) (rows f)"

definition pd_concat :: "('i, 'c::linorder, 'v option) frame list \<Rightarrow> error + ('i, 'c, 'v option) frame" where
  \<comment> \<open>\<^verbatim>\<open>pd.concat(objs, sort=True)\<close>: rows one after the other, columns the sorted union of the
      frames' columns, NaN where a frame lacks a column; \<^verbatim>\<open>ValueError("No objects to concatenate")\<close>
      for an empty list\<close>
  "pd_concat objs =
     (if objs = [] then Inl ValueError
      else let cs = sort (remdups (concat (map columns objs)))
           in Inr \<lparr>index = concat (map index objs), columns = cs,
                   rows = concat (map (reindex_rows cs) objs)\<rparr>)"

definition agg_count :: "'v option list \<Rightarrow> int" where
  \<comment> \<open>\<^verbatim>\<open>"count"\<close>: the number of cells that are not NaN\<close>
  "agg_count vs = int (length (filter (\<lambda>v. v \<noteq> None) vs))"

definition agg_sum :: "int option list \<Rightarrow> int" where
  \<comment> \<open>\<^verbatim>\<open>"sum"\<close>: the sum of the cells that are not NaN, 0 when there is none\<close>
  "agg_sum vs = sum_list (map (\<lambda>v. case v of None \<Rightarrow> 0 | Some n \<Rightarrow> n) vs)"

definition resample :: "('v list \<Rightarrow> 'w) \<Rightarrow> (int, 'c, 'v) frame \<Rightarrow> (int, 'c, 'w) frame" where
  \<comment> \<open>\<^verbatim>\<open>.resample(freq).agg(aggfunc)\<close> on a frame whose row labels are the ordinals of their
      periods (for \<^verbatim>\<open>"MS"\<close> the month): one row for every period from the least to the
      greatest label, each column aggregated over the rows of the period\<close>
  "resample aggfunc f =
     (let periods = (if index f = [] then [] else [Min (set (index f))..Max (set (index f))])
      in \<lparr>index = periods, columns = columns f,
          rows = map (\<lambda>m. map (\<lambda>j. aggfunc (map (\<lambda>r. r ! j)
                                  (map snd (filter (\<lambda>p. fst p = m) (zip (index f) (rows f))))))
                           [0..<length (columns f)])
                     periods\<rparr>)"

section \<open>\<^verbatim>\<open>breakdown_by_month\<close> and \<^verbatim>\<open>breakdown_by_month_sum_days\<close>\<close>

definition effective_end :: "timestamp \<Rightarrow> 'c item \<Rightarrow> timestamp" where
  \<comment> \<open>\<^verbatim>\<open>if end_date is pd.NaT: end_date = pd.Timestamp.today()\<close>; today is a parameter\<close>
  "effective_end today t = (case end_column t of None \<Rightarrow> today | Some e \<Rightarrow> e)"

definition build_df :: "timestamp \<Rightarrow> 'c item \<Rightarrow> (int, 'c, string option) frame" where
  \<comment> \<open>the inner function of \<^verbatim>\<open>breakdown_by_month\<close>: a frame with one column, labelled by the
      category, and one row for each month of the item, every cell holding the key (the
      one cell of \<^verbatim>\<open>data=[[key]]\<close> is repeated along the index, as the tests expect)\<close>
  "build_df today t =
     (let start_date = start_column t;
          end_date = effective_end today t;
          key = key_column t;
          val = value_column t;
          first_month = to_period_M start_date;
          last_month = to_period_M end_date;
          idx = date_range_MS first_month last_month
      in \<lparr>index = idx, columns = [val], rows = map (\<lambda>_. [Some key]) idx\<rparr>)"

definition breakdown_by_month :: "timestamp \<Rightarrow> ('c::linorder) item list \<Rightarrow> error + (int, 'c, int) frame" where
  "breakdown_by_month today df =
     (case pd_concat (map (build_df today) df) of
        Inl e \<Rightarrow> Inl e
      | Inr f \<Rightarrow> Inr (resample agg_count f))"

definition build_df_sum_days :: "timestamp \<Rightarrow> 'c item \<Rightarrow> (int, 'c, int option) frame" where
  \<comment> \<open>the inner function \<^verbatim>\<open>build_df\<close> of \<^verbatim>\<open>breakdown_by_month_sum_days\<close>: for each month of
      the item, the number of days of the month that are days of the item\<close>
  "build_df_sum_days today t =
     (let start_date = start_column t;
          end_date = effective_end today t;
          val = value_column t;
          days_range = date_range_D start_date end_date;
          first_month = to_period_M start_date;
          last_month = to_period_M end_date;
          idx = date_range_MS first_month last_month
      in \<lparr>index = idx, columns = [val],
          rows = map (\<lambda>month_start. [Some (int (length (intersection (month_days month_start) days_range)))]) idx\<rparr>)"

definition breakdown_by_month_sum_days :: "timestamp \<Rightarrow> ('c::linorder) item list \<Rightarrow> error + (int, 'c, int) frame" where
  "breakdown_by_month_sum_days today df =
     (case pd_concat (map (build_df_sum_days today) df) of
        Inl e \<Rightarrow> Inl e
      | Inr f \<Rightarrow> Inr (resample agg_sum f))"

section \<open>Table filters\<close>

definition select_columns :: "('i, 'c, 'v) frame \<Rightarrow> 'c list \<Rightarrow> ('i, 'c, 'v) frame" where
  \<comment> \<open>\<^verbatim>\<open>df[labels]\<close> for labels that are all columns of \<open>df\<close>: for each label in turn, the
      columns of \<open>df\<close> with that label\<close>
  "select_columns df labels =
     \<lparr>index = index df,
      columns = concat (map (\<lambda>s. filter (\<lambda>c. c = s) (columns df)) labels),
      rows = map (\<lambda>r. concat (map (\<lambda>s. map snd (filter (\<lambda>p. fst p = s) (zip (columns df) r))) labels))
                 (rows df)\<rparr>"

definition filter_by_columns :: "('i, 'c, 'v) frame \<Rightarrow> 'c list option \<Rightarrow> ('i, 'c, 'v) frame" where
  \<comment> \<open>\<open>None\<close> and the empty list are falsy\<close>
  "filter_by_columns df output_columns =
     (case output_columns of
        None \<Rightarrow> df
      | Some oc \<Rightarrow> if oc \<noteq> [] then select_columns df (filter (\<lambda>s. s \<in> set (columns df)) oc) else df)"

definition loc_mask :: "('i, 'c, 'v) frame \<Rightarrow> bool list \<Rightarrow> ('i, 'c, 'v) frame" where
  \<comment> \<open>\<^verbatim>\<open>df.loc[:, mask]\<close>: the columns whose mask entry is true, in their order\<close>
  "loc_mask df bs =
     \<lparr>index = index df, columns = map fst (filter snd (zip (columns df) bs)),
      rows = map (\<lambda>r. map fst (filter snd (zip r bs))) (rows df)\<rparr>"

definition set_column :: "('i, 'c, 'v) frame \<Rightarrow> 'c \<Rightarrow> 'v list \<Rightarrow> ('i, 'c, 'v) frame" where
  \<comment> \<open>\<^verbatim>\<open>df[label] = values\<close>, in place: a column of that label is overwritten where it stands,
      otherwise the column is appended\<close>
  "set_column df label vals =
     (if label \<in> set (columns df)
      then df\<lparr>rows := map (\<lambda>(r, v). map (\<lambda>(c, x). if c = label then v else x) (zip (columns df) r))
                              (zip (rows df) vals)\<rparr>
      else df\<lparr>columns := columns df @ [label], rows := map (\<lambda>(r, v). r @ [v]) (zip (rows df) vals)\<rparr>)"

definition set_mask :: "'c list \<Rightarrow> bool list \<Rightarrow> 'c \<Rightarrow> bool \<Rightarrow> bool list" where
  \<comment> \<open>\<^verbatim>\<open>mask[label] = b\<close> on a series labelled by the columns: overwritten, or appended\<close>
  "set_mask cs bs label b =
     (if label \<in> set cs then map (\<lambda>(c, x). if c = label then b else x) (zip cs bs)
      else bs @ [b])"

text \<open>
  The cells of a table of counts are 64-bit integers: their sums wrap around. The shares
  are computed in double precision: \<open>float64\<close> rounds a rational number to the nearest
  number with a mantissa of 53 bits, halves to the even mantissa (the range of the
  exponent is not modelled: the numbers at hand are far from its ends).
\<close>

definition int64 :: "int \<Rightarrow> int" where
  "int64 x = (x + 2 ^ 63) mod 2 ^ 64 - 2 ^ 63"

function bitlen :: "int \<Rightarrow> int" where
  \<comment> \<open>the number of binary digits of a positive integer\<close>
  "bitlen n = (if n \<le> 0 then 0 else 1 + bitlen (n div 2))"
  by pat_completeness auto
termination
  by (relation "measure nat") auto

definition pow2 :: "int \<Rightarrow> rat" where
  "pow2 e = (if 0 \<le> e then 2 ^ nat e else 1 / 2 ^ nat (- e))"

definition round_half_even :: "rat \<Rightarrow> int" where
  "round_half_even x =
     (let f = \<lfloor>x\<rfloor>; d = x - of_int f
      in if d < 1 / 2 then f else if 1 / 2 < d then f + 1 else if even f then f else f + 1)"

definition float64 :: "rat \<Rightarrow> rat" where
  "float64 x =
     (if x = 0 then 0
      else
        (let a = \<bar>x\<bar>;
             k = bitlen (fst (quotient_of a)) - bitlen (snd (quotient_of a));
             lg = (if pow2 k \<le> a then k else k - 1);
             e = lg - 52
         in sgn x * of_int (round_half_even (a / pow2 e)) * pow2 e))"

definition share_below :: "int \<Rightarrow> int \<Rightarrow> rat \<Rightarrow> bool" where
  \<comment> \<open>\<^verbatim>\<open>value * 100.0 / total < threshold\<close> on doubles. For a zero total the quotient is
      \<open>inf\<close>, \<open>nan\<close> or \<open>-inf\<close>, below the threshold only in the last case\<close>
  "share_below v tot threshold =
     (if tot = 0 then v < 0
      else float64 (float64 (float64 (of_int v) * 100) / float64 (of_int tot)) < float64 threshold)"

definition getitem_1 :: "row_label list \<Rightarrow> 'a list \<Rightarrow> error + 'a" where
  \<comment> \<open>\<^verbatim>\<open>total[1]\<close> on a series with the given row labels: the entry of the row labelled 1;
      several such rows give several totals, which the division cannot align with the
      columns (\<^verbatim>\<open>ValueError\<close>); without such a row an integer index raises \<^verbatim>\<open>KeyError\<close>
      and any other index falls back to the position 1, \<^verbatim>\<open>IndexError\<close> when there
      is none\<close>
  "getitem_1 idx vals =
     (case filter (\<lambda>i. idx ! i = Int_label 1) [0..<length idx] of
        [k] \<Rightarrow> Inr (vals ! k)
      | _ # _ # _ \<Rightarrow> Inl ValueError
      | [] \<Rightarrow> if list_all is_int_label idx then Inl KeyError
              else if length vals < 2 then Inl IndexError
              else Inr (vals ! 1))"

definition filter_by_threshold ::
  "(row_label, string, int) frame \<Rightarrow> rat option
   \<Rightarrow> error + ((row_label, string, int) frame \<times> (row_label, string, int) frame)" where
  \<comment> \<open>returns the result and the frame \<open>df\<close> as the call leaves it (the assignment
      \<^verbatim>\<open>df["Others"] = ...\<close> writes to the argument); \<open>None\<close> and 0 are falsy thresholds\<close>
  "filter_by_threshold df threshold =
     (case threshold of
        None \<Rightarrow> Inr (df, df)
      | Some th \<Rightarrow>
          if th \<noteq> 0 then
            (let totals = map (\<lambda>r. int64 (sum_list r)) (rows df)
             in case getitem_1 (index df) totals of
                  Inl e \<Rightarrow> Inl e
                | Inr total1 \<Rightarrow>
                    (let threshold_mask =
                           map (\<lambda>j. list_all (\<lambda>r. share_below (r ! j) total1 th) (rows df))
                               [0..<length (columns df)];
                         others = map (\<lambda>r. int64 (sum_list (map fst (filter snd (zip r threshold_mask)))))
                                      (rows df);
                         df' = set_column df ''Others'' others;
                         threshold_mask' = set_mask (columns df) threshold_mask ''Others'' False
                     in Inr (loc_mask df' (map Not threshold_mask'), df')))
          else Inr (df, df))"

definition filter_by_window :: "('i, 'c, 'v) frame \<Rightarrow> int option \<Rightarrow> ('i, 'c, 'v) frame" where
  \<comment> \<open>\<^verbatim>\<open>df[-window:]\<close> with the slice rules of Python: a negative start counts from the end,
      and both are clipped to the number of rows\<close>
  "filter_by_window df window =
     (case window of
        None \<Rightarrow> df
      | Some w \<Rightarrow>
          if w \<noteq> 0 then
            (let n = int (length (index df));
                 start = (if - w < 0 then max 0 (n - w) else min n (- w))
             in df\<lparr>index := drop (nat start) (index df), rows := drop (nat start) (rows df)\<rparr>)
          else df)"

definition nargsort :: "(int list \<Rightarrow> nat list) \<Rightarrow> int list \<Rightarrow> bool \<Rightarrow> nat list" where
  \<comment> \<open>the positions of the items in sorted order, as \<^verbatim>\<open>sort_values\<close> computes them from the
      array sort \<open>argsort\<close> of the library (default \<^verbatim>\<open>kind="quicksort"\<close>): for a descending
      order the items are reversed, sorted and the result reversed\<close>
  "nargsort argsort items ascending =
     (let idx = [0..<length items];
          non_nans = (if ascending then items else rev items);
          non_nan_idx = (if ascending then idx else rev idx);
          indexer = map (\<lambda>i. non_nan_idx ! i) (argsort non_nans)
      in if ascending then indexer else rev indexer)"

definition take_columns :: "('i, 'c, 'v) frame \<Rightarrow> nat list \<Rightarrow> ('i, 'c, 'v) frame" where
  \<comment> \<open>the columns at the given positions, in that order\<close>
  "take_columns df indexer =
     \<lparr>index = index df, columns = map (\<lambda>i. columns df ! i) indexer,
      rows = map (\<lambda>r. map (\<lambda>i. r ! i) indexer) (rows df)\<rparr>"

definition sort_colums_by_last_row ::
  "(int list \<Rightarrow> nat list) \<Rightarrow> ('i, 'c, int) frame \<Rightarrow> bool \<Rightarrow> ('i, 'c, int) frame" where
  \<comment> \<open>\<^verbatim>\<open>df.sort_values(by=df.last_valid_index(), axis=1, ascending=ascending)\<close>; the cells are
      numbers, so the last valid row is the last row. The library's array sort is the
      parameter \<open>argsort\<close>\<close>
  "sort_colums_by_last_row argsort df ascending =
     (if length (index df) > 0 \<and> length (columns df) > 0
      then take_columns df (nargsort argsort (last (rows df)) ascending)
      else df)"












section \<open>Calculators\<close>

text \<open>
  The settings the calculators read. A step of the configured workflow has a name, the
  statuses mapped to it and a type. A resampling frequency (an offset alias such as
  \<^verbatim>\<open>"MS"\<close>) is modelled by the function that sends a timestamp, given by its ordinal on the
  time line, to the ordinal of its period.
\<close>

record cycle_step =
  cycle_name :: string
  cycle_statuses :: "string list"
  cycle_type :: string

record settings =
  cycle :: "cycle_step list"
  committed_column :: string
  done_column :: string
  backlog_column :: string
  net_flow_frequency :: "int \<Rightarrow> int"
  waste_frequency :: "int \<Rightarrow> int"
  waste_window :: "int option"
  waste_chart :: "string option"
  net_flow_window :: "int option"
  net_flow_chart :: "string option"

definition agg_max :: "int option list \<Rightarrow> int option" where
  \<comment> \<open>\<^verbatim>\<open>.max()\<close> of a period: the greatest cell that is not NaN, NaN when there is none\<close>
  "agg_max vs = (case concat (map (\<lambda>v. case v of None \<Rightarrow> [] | Some n \<Rightarrow> [n]) vs) of
                   [] \<Rightarrow> None | n # ns \<Rightarrow> Some (fold max ns n))"

definition column_values :: "('i, 'c, 'v option) frame \<Rightarrow> 'c \<Rightarrow> 'v option list" where
  \<comment> \<open>\<^verbatim>\<open>df[label]\<close>: the cells of the column\<close>
  "column_values df label = map (\<lambda>r. cell_of (columns df) r label) (rows df)"

definition diff :: "int option list \<Rightarrow> int option list" where
  \<comment> \<open>\<^verbatim>\<open>Series.diff()\<close>: NaN first, then the difference with the previous entry\<close>
  "diff xs = (case xs of [] \<Rightarrow> []
              | _ # ys \<Rightarrow> None # map (\<lambda>(a, b). case (a, b) of (Some p, Some q) \<Rightarrow> Some (q - p) | _ \<Rightarrow> None)
                                    (zip xs ys))"

definition fillna :: "'v option list \<Rightarrow> 'v option list \<Rightarrow> 'v option list" where
  \<comment> \<open>\<^verbatim>\<open>Series.fillna(other)\<close>: a NaN entry takes the entry of \<open>other\<close> at the same row\<close>
  "fillna xs other = map (\<lambda>(x, y). case x of None \<Rightarrow> y | Some v \<Rightarrow> Some v) (zip xs other)"

definition series_sub :: "int option list \<Rightarrow> int option list \<Rightarrow> int option list" where
  "series_sub xs ys = map (\<lambda>(a, b). case (a, b) of (Some p, Some q) \<Rightarrow> Some (p - q) | _ \<Rightarrow> None) (zip xs ys)"

definition NetFlowChartCalculator_run ::
  "settings \<Rightarrow> (int, string, int option) frame
   \<Rightarrow> string list \<times> (error + (int, string, int option) frame option)" where
  \<comment> \<open>\<^verbatim>\<open>NetFlowChartCalculator.run\<close>: \<open>cfd_data\<close> is the result of the CFD calculator; the value is
      the list of the messages sent to \<^verbatim>\<open>logger.error\<close> and the result, \<open>Inr None\<close> for
      \<^verbatim>\<open>return None\<close>. Selecting a column the CFD frame lacks raises \<^verbatim>\<open>KeyError\<close>; when
      the two columns are the same one, \<^verbatim>\<open>net_flow_data[start_column]\<close> is a frame of two
      columns and assigning it to the column \<^verbatim>\<open>arrivals\<close> raises \<^verbatim>\<open>ValueError\<close>\<close>
  "NetFlowChartCalculator_run settings cfd_data =
     (let cycle_names = map cycle_name (cycle settings);
          start_column = committed_column settings;
          done_col = done_column settings
      in if start_column \<notin> set cycle_names
         then ([''Committed column '' @ start_column @ '' does not exist''], Inr None)
         else if done_col \<notin> set cycle_names
         then ([''Done column '' @ done_col @ '' does not exist''], Inr None)
         else if start_column \<notin> set (columns cfd_data) \<or> done_col \<notin> set (columns cfd_data)
         then ([], Inl KeyError)
         else if start_column = done_col
         then ([], Inl ValueError)
         else
           (let frequency = net_flow_frequency settings;
                selected = select_columns cfd_data [start_column, done_col];
                net_flow_data = resample agg_max (selected\<lparr>index := map frequency (index selected)\<rparr>);
                net_flow_data1 = set_column net_flow_data ''arrivals''
                    (fillna (diff (column_values net_flow_data start_column))
                            (column_values net_flow_data start_column));
                net_flow_data2 = set_column net_flow_data1 ''departures''
                    (fillna (diff (column_values net_flow_data1 done_col))
                            (column_values net_flow_data1 done_col));
                net_flow_data3 = set_column net_flow_data2 ''net_flow''
                    (series_sub (column_values net_flow_data2 ''arrivals'')
                                (column_values net_flow_data2 ''departures''))
            in ([], Inr (Some net_flow_data3))))"

definition NetFlowChartCalculator_write ::
  "settings \<Rightarrow> (int, string, int option) frame option
   \<Rightarrow> error + (int, string, int option) frame option" where
  \<comment> \<open>\<^verbatim>\<open>NetFlowChartCalculator.write\<close> up to the table it hands to the chart; \<open>chart_data\<close> is
      \<^verbatim>\<open>self.get_result()\<close>, the value \<^verbatim>\<open>run\<close> returned. There is no test for \<^verbatim>\<open>None\<close>:
      \<^verbatim>\<open>len(chart_data.index)\<close> raises \<^verbatim>\<open>AttributeError\<close> on it\<close>
  "NetFlowChartCalculator_write settings chart_data =
     (if net_flow_chart settings = None \<or> net_flow_chart settings = Some [] then Inr None
      else case chart_data of
             None \<Rightarrow> Inl AttributeError
           | Some cd \<Rightarrow>
               if length (index cd) = 0 then Inr None
               else if ''net_flow'' \<notin> set (columns cd) then Inl KeyError
               else Inr (Some (filter_by_window (select_columns cd [''net_flow''])
                                                 (net_flow_window settings))))"

text \<open>One row of the frame \<^verbatim>\<open>WasteCalculator.run\<close> returns. \<open>last_status = None\<close> is an issue
  without status change.\<close>

record waste_row =
  key :: string
  last_status :: "string option"
  resolution :: string
  withdrawn_date :: int

definition list_remove :: "'a list \<Rightarrow> 'a \<Rightarrow> error + 'a list" where
  \<comment> \<open>\<^verbatim>\<open>list.remove(x)\<close>: the first occurrence is removed, \<^verbatim>\<open>ValueError\<close> when there is none\<close>
  "list_remove xs x = (if x \<in> set xs then Inr (remove1 x xs) else Inl ValueError)"

definition pivot_table :: "waste_row list \<Rightarrow> (int, string, int option) frame" where
  \<comment> \<open>\<^verbatim>\<open>pivot_table(index="withdrawn_date", columns="last_status", values="key",
      aggfunc="count")\<close>: the rows are the dates and the columns the statuses of the records
      with a status, both sorted; a cell counts the records of its date and status and is NaN
      when there is none\<close>
  "pivot_table chart_data =
     (let recs = filter (\<lambda>r. last_status r \<noteq> None) chart_data;
          dates = sort (remdups (map withdrawn_date recs));
          statuses = sort (remdups (concat (map (\<lambda>r. case last_status r of None \<Rightarrow> [] | Some s \<Rightarrow> [s]) recs)))
      in \<lparr>index = dates, columns = statuses,
          rows = map (\<lambda>d. map (\<lambda>s. let n = length (filter (\<lambda>r. withdrawn_date r = d \<and> last_status r = Some s) recs)
                                   in if n = 0 then None else Some (int n)) statuses) dates\<rparr>)"

definition reindex_columns :: "('i, 'c, 'v) frame \<Rightarrow> 'c list \<Rightarrow> ('i, 'c, 'v option) frame" where
  \<comment> \<open>\<^verbatim>\<open>.reindex(labels, axis=1)\<close>: the columns are the labels; a label that is no column of
      the frame gives a column of NaN (no \<^verbatim>\<open>fill_value\<close> is passed)\<close>
  "reindex_columns df labels =
     \<lparr>index = index df, columns = labels,
      rows = map (\<lambda>r. map (\<lambda>c. map_of (zip (columns df) r) c) labels) (rows df)\<rparr>"

definition WasteCalculator_write ::
  "settings \<Rightarrow> waste_row list option \<Rightarrow> error + (int, string, int option) frame option" where
  \<comment> \<open>\<^verbatim>\<open>WasteCalculator.write\<close> up to the table \<^verbatim>\<open>breakdown\<close> it hands to the chart: \<open>Inr None\<close>
      when it returns before, \<open>Inr (Some breakdown)\<close> otherwise\<close>
  "WasteCalculator_write settings chart_data =
     (case chart_data of
        None \<Rightarrow> Inr None
      | Some cd \<Rightarrow>
          if waste_chart settings = None \<or> waste_chart settings = Some [] then Inr None
          else if length cd = 0 then Inr None
          else
            (let cycle_names = map cycle_name (cycle settings)
             in case list_remove cycle_names (backlog_column settings) of
                  Inl e \<Rightarrow> Inl e
                | Inr cycle_names1 \<Rightarrow>
                    (case list_remove cycle_names1 (done_column settings) of
                       Inl e \<Rightarrow> Inl e
                     | Inr cycle_names2 \<Rightarrow>
                         (let pivot = pivot_table cd;
                              grouped = resample agg_sum
                                          (pivot\<lparr>index := map (waste_frequency settings) (index pivot)\<rparr>)
                          in Inr (Some (filter_by_window (reindex_columns grouped cycle_names2)
                                                          (waste_window settings)))))))"

text \<open>
  The table of one defects chart. \<^verbatim>\<open>DefectsCalculator.write\<close> returns before any chart when
  there is no data or no item; \<^verbatim>\<open>_write_defects_by_field_chart\<close> then buckets the items of
  the chart's field by month and applies the filters. The items are the rows of the chart
  data with the value of the field as category.
\<close>

definition write_defects_by_field_chart ::
  "(int list \<Rightarrow> nat list) \<Rightarrow> timestamp \<Rightarrow> string item list \<Rightarrow> string list option
   \<Rightarrow> int option \<Rightarrow> rat option \<Rightarrow> bool \<Rightarrow> error + (row_label, string, int) frame" where
  \<comment> \<open>the rows of the monthly table are labelled by timestamps, the month starts\<close>
  "write_defects_by_field_chart argsort today chart_data field_values window threshold sort_flag =
     (case breakdown_by_month today chart_data of
        Inl e \<Rightarrow> Inl e
      | Inr b \<Rightarrow>
          (let monthly = \<lparr>index = map Time_label (index b), columns = columns b, rows = rows b\<rparr>;
               breakdown = filter_by_window (filter_by_columns monthly field_values) window;
               breakdown1 = (if sort_flag then sort_colums_by_last_row argsort breakdown False
                             else breakdown)
           in case filter_by_threshold breakdown1 threshold of
                Inl e \<Rightarrow> Inl e
              | Inr (breakdown2, _) \<Rightarrow> Inr breakdown2))"

definition DefectsCalculator_write ::
  "(int list \<Rightarrow> nat list) \<Rightarrow> timestamp \<Rightarrow> string item list option \<Rightarrow> string list option
   \<Rightarrow> int option \<Rightarrow> rat option \<Rightarrow> bool \<Rightarrow> error + (row_label, string, int) frame option" where
  \<comment> \<open>\<open>Inr None\<close>: the method has returned without a chart\<close>
  "DefectsCalculator_write argsort today chart_data field_values window threshold sort_flag =
     (case chart_data of
        None \<Rightarrow> Inr None
      | Some cd \<Rightarrow>
          if length cd = 0 then Inr None
          else (case write_defects_by_field_chart argsort today cd field_values window threshold sort_flag of
                  Inl e \<Rightarrow> Inl e
                | Inr b \<Rightarrow> Inr (Some b)))"

section \<open>Auxiliary definitions for the proofs\<close>

text \<open>These definitions are not part of the program: they name the intermediate objects of the
  proofs and the tables the results are compared with.\<close>

definition month_rows :: "int \<Rightarrow> int list \<Rightarrow> 'a list \<Rightarrow> 'a list" where
  "month_rows m ix rw = map snd (filter (\<lambda>p. fst p = m) (zip ix rw))"

definition month_span :: "int list \<Rightarrow> int list" where
  "month_span ix = (if ix = [] then [] else [Min (set ix)..Max (set ix)])"

definition single :: "int \<Rightarrow> int \<Rightarrow> 'c \<Rightarrow> (int \<Rightarrow> 'v) \<Rightarrow> (int, 'c, 'v option) frame" where
  "single a b v g = \<lparr>index = [a..b], columns = [v], rows = map (\<lambda>i. [Some (g i)]) [a..b]\<rparr>"

definition single_row :: "'c list \<Rightarrow> 'c \<Rightarrow> 'v \<Rightarrow> 'v option list" where
  "single_row cs v x = map (\<lambda>c. if c = v then Some x else None) cs"

definition first_month :: "'c item \<Rightarrow> int" where
  "first_month t = to_period_M (start_column t)"

definition last_month :: "timestamp \<Rightarrow> 'c item \<Rightarrow> int" where
  "last_month today t = to_period_M (effective_end today t)"

definition overlap_days :: "timestamp \<Rightarrow> 'c item \<Rightarrow> int \<Rightarrow> int" where
  "overlap_days today t m =
     int (length (intersection (month_days m) (date_range_D (start_column t) (effective_end today t))))"

definition count_table :: "timestamp \<Rightarrow> ('c::linorder) item list \<Rightarrow> (int, 'c, int) frame" where
  "count_table today df =
     (let months = month_span (concat (map (\<lambda>t. [first_month t..last_month today t]) df));
          cs = sort (remdups (map value_column df))
      in \<lparr>index = months, columns = cs,
          rows = map (\<lambda>m. map (\<lambda>c. int (length (filter (\<lambda>t. (first_month t \<le> m \<and> m \<le> last_month today t)
                                                       \<and> c = value_column t) df))) cs) months\<rparr>)"

definition sum_table :: "timestamp \<Rightarrow> ('c::linorder) item list \<Rightarrow> (int, 'c, int) frame" where
  "sum_table today df =
     (let months = month_span (concat (map (\<lambda>t. [first_month t..last_month today t]) df));
          cs = sort (remdups (map value_column df))
      in \<lparr>index = months, columns = cs,
          rows = map (\<lambda>m. map (\<lambda>c. sum_list (map (\<lambda>t. if (first_month t \<le> m \<and> m \<le> last_month today t)
                                                       \<and> c = value_column t then overlap_days today t m else 0) df)) cs) months\<rparr>)"

definition wf_frame :: "('i, 'c, 'v) frame \<Rightarrow> bool" where
  "wf_frame df = (length (rows df) = length (index df)
                  \<and> list_all (\<lambda>r. length r = length (columns df)) (rows df))"

definition is_argsort :: "(int list \<Rightarrow> nat list) \<Rightarrow> int list \<Rightarrow> bool" where
  "is_argsort argsort vs =
     (mset (argsort vs) = mset [0..<length vs] \<and> sorted (map (\<lambda>i. vs ! i) (argsort vs)))"

definition stable_argsort :: "int list \<Rightarrow> nat list" where
  "stable_argsort vs = sort_key (\<lambda>i. vs ! i) [0..<length vs]"

definition example_settings :: settings where
  "example_settings =
     \<lparr>cycle = [\<lparr>cycle_name = ''Backlog'', cycle_statuses = [''open''], cycle_type = ''backlog''\<rparr>,
               \<lparr>cycle_name = ''Build'', cycle_statuses = [''dev''], cycle_type = ''accepted''\<rparr>,
               \<lparr>cycle_name = ''Test'', cycle_statuses = [''qa''], cycle_type = ''accepted''\<rparr>,
               \<lparr>cycle_name = ''Done'', cycle_statuses = [''closed''], cycle_type = ''complete''\<rparr>],
      committed_column = ''Build'', done_column = ''Done'', backlog_column = ''Backlog'',
      net_flow_frequency = (\<lambda>d. d div 7), waste_frequency = (\<lambda>d. d div 30),
      waste_window = None, waste_chart = Some ''waste.png'',
      net_flow_window = None, net_flow_chart = Some ''netflow.png''\<rparr>"

section \<open>Concatenation and resampling of one-column frames\<close>

lemma zip_concat_frames:
  "\<forall>f \<in> set fs. length (ix f) = length (rw f) \<Longrightarrow>
   zip (concat (map ix fs)) (concat (map rw fs)) = concat (map (\<lambda>f. zip (ix f) (rw f)) fs)"
  by (induction fs) auto

lemma month_rows_concat:
  assumes "\<forall>f \<in> set fs. length (ix f) = length (rw f)"
  shows "month_rows m (concat (map ix fs)) (concat (map rw fs))
         = concat (map (\<lambda>f. month_rows m (ix f) (rw f)) fs)"
proof -
  have "zip (concat (map ix fs)) (concat (map rw fs)) = concat (map (\<lambda>f. zip (ix f) (rw f)) fs)"
    using assms by (rule zip_concat_frames)
  then show ?thesis
    unfolding month_rows_def by (simp only: filter_concat map_concat map_map comp_def)
qed

lemma month_rows_upto:
  "month_rows m [a..b] (map g [a..b]) = (if a \<le> m \<and> m \<le> b then [g m] else [])"
proof -
  have z: "zip [a..b] (map g [a..b]) = map (\<lambda>i. (i, g i)) [a..b]"
    by (simp add: zip_map2 zip_same_conv_map)
  have "filter (\<lambda>i. i = m) [a..b] = (if a \<le> m \<and> m \<le> b then [m] else [])"
  proof (cases "a \<le> m \<and> m \<le> b")
    case True
    then have "[a..b] = [a..m-1] @ m # [m+1..b]"
      by (simp add: upto_split3)
    then show ?thesis using True by (simp add: filter_empty_conv)
  next
    case False
    then show ?thesis by (auto simp: filter_empty_conv)
  qed
  then show ?thesis
    unfolding month_rows_def z by (simp add: filter_map comp_def)
qed

lemma resample_alt:
  "resample aggfunc f =
     \<lparr>index = month_span (index f), columns = columns f,
      rows = map (\<lambda>m. map (\<lambda>j. aggfunc (map (\<lambda>r. r ! j) (month_rows m (index f) (rows f))))
                         [0..<length (columns f)]) (month_span (index f))\<rparr>"
  by (simp add: resample_def month_span_def month_rows_def Let_def)

lemma reindex_rows_single:
  "reindex_rows cs (single a b v g) = map (\<lambda>i. single_row cs v (g i)) [a..b]"
  by (simp add: reindex_rows_def single_def single_row_def cell_of_def comp_def)

lemma month_rows_single:
  "month_rows m (index (single a b v g)) (reindex_rows cs (single a b v g))
   = (if a \<le> m \<and> m \<le> b then [single_row cs v (g m)] else [])"
proof -
  have "index (single a b v g) = [a..b]" by (simp add: single_def)
  then show ?thesis
    by (simp only: reindex_rows_single month_rows_upto)
qed

lemma map_nth_cols: "map (\<lambda>j. h (cs ! j)) [0..<length cs] = map h cs"
  by (rule nth_equalityI) simp_all

lemma column_of_single_rows:
  assumes "j < length cs"
  shows "map (\<lambda>r. r ! j) (concat (map (\<lambda>t. if P t then [single_row cs (v t) (x t)] else []) df))
         = concat (map (\<lambda>t. if P t then [if cs ! j = v t then Some (x t) else None] else []) df)"
  using assms by (induction df) (auto simp: single_row_def)

lemma columns_concat_single:
  "concat (map columns (map (\<lambda>t. single (a t) (b t) (v t) (g t)) df)) = map v df"
  by (induction df) (simp_all add: single_def)

lemma index_concat_single:
  "concat (map index (map (\<lambda>t. single (a t) (b t) (v t) (g t)) df)) = concat (map (\<lambda>t. [a t..b t]) df)"
  by (induction df) (simp_all add: single_def)

lemma resample_concat_single:
  assumes "df \<noteq> []"
  shows "(case pd_concat (map (\<lambda>t. single (a t) (b t) (v t) (g t)) df) of
            Inl e \<Rightarrow> Inl e | Inr f \<Rightarrow> Inr (resample aggfunc f))
         = Inr \<lparr>index = month_span (concat (map (\<lambda>t. [a t..b t]) df)),
                 columns = sort (remdups (map v df)),
                 rows = map (\<lambda>m. map (\<lambda>c. aggfunc (concat (map (\<lambda>t. if a t \<le> m \<and> m \<le> b t
                                         then [if c = v t then Some (g t m) else None] else []) df)))
                                     (sort (remdups (map v df))))
                            (month_span (concat (map (\<lambda>t. [a t..b t]) df)))\<rparr>"
proof -
  let ?F = "\<lambda>t. single (a t) (b t) (v t) (g t)"
  let ?cs = "sort (remdups (map v df))"
  let ?ix = "concat (map (\<lambda>t. [a t..b t]) df)"
  let ?R = "\<lparr>index = ?ix, columns = ?cs, rows = concat (map (reindex_rows ?cs) (map ?F df))\<rparr>"
  have c: "pd_concat (map ?F df) = Inr ?R"
    using assms by (simp add: pd_concat_def Let_def columns_concat_single index_concat_single del: map_map)
  have len: "\<forall>f \<in> set (map ?F df). length (index f) = length (reindex_rows ?cs f)"
  proof
    fix f assume "f \<in> set (map ?F df)"
    then obtain t where "f = ?F t" by auto
    then show "length (index f) = length (reindex_rows ?cs f)"
      by (simp add: reindex_rows_single) (simp add: single_def)
  qed
  have mr: "month_rows m (index ?R) (rows ?R)
            = concat (map (\<lambda>t. if a t \<le> m \<and> m \<le> b t then [single_row ?cs (v t) (g t m)] else []) df)" for m
  proof -
    have "month_rows m (concat (map index (map ?F df))) (concat (map (reindex_rows ?cs) (map ?F df)))
          = concat (map (\<lambda>f. month_rows m (index f) (reindex_rows ?cs f)) (map ?F df))"
      using len by (rule month_rows_concat)
    also have "\<dots> = concat (map (\<lambda>t. if a t \<le> m \<and> m \<le> b t then [single_row ?cs (v t) (g t m)] else []) df)"
      by (simp only: map_map comp_def month_rows_single)
    finally show ?thesis by (simp only: frame.select_convs index_concat_single)
  qed
  have row: "map (\<lambda>j. aggfunc (map (\<lambda>r. r ! j) (month_rows m (index ?R) (rows ?R)))) [0..<length ?cs]
             = map (\<lambda>c. aggfunc (concat (map (\<lambda>t. if a t \<le> m \<and> m \<le> b t
                                         then [if c = v t then Some (g t m) else None] else []) df))) ?cs" for m
  proof -
    have "map (\<lambda>j. aggfunc (map (\<lambda>r. r ! j) (month_rows m (index ?R) (rows ?R)))) [0..<length ?cs]
          = map (\<lambda>j. aggfunc (concat (map (\<lambda>t. if a t \<le> m \<and> m \<le> b t
                                         then [if ?cs ! j = v t then Some (g t m) else None] else []) df)))
                [0..<length ?cs]"
      by (rule map_cong[OF refl]) (simp only: mr column_of_single_rows atLeastLessThan_iff set_upt)
    also have "\<dots> = map (\<lambda>c. aggfunc (concat (map (\<lambda>t. if a t \<le> m \<and> m \<le> b t
                                         then [if c = v t then Some (g t m) else None] else []) df))) ?cs"
      by (rule map_nth_cols)
    finally show ?thesis .
  qed
  have "resample aggfunc ?R
        = \<lparr>index = month_span ?ix, columns = ?cs,
            rows = map (\<lambda>m. map (\<lambda>c. aggfunc (concat (map (\<lambda>t. if a t \<le> m \<and> m \<le> b t
                                         then [if c = v t then Some (g t m) else None] else []) df))) ?cs)
                       (month_span ?ix)\<rparr>"
    unfolding resample_alt using row by simp
  then show ?thesis by (simp only: c sum.case)
qed

lemma build_df_single:
  "build_df today t = single (first_month t) (last_month today t) (value_column t) (\<lambda>_. key_column t)"
  by (simp add: build_df_def single_def first_month_def last_month_def date_range_MS_def Let_def)

lemma build_df_sum_days_single:
  "build_df_sum_days today t
   = single (first_month t) (last_month today t) (value_column t) (overlap_days today t)"
  by (simp add: build_df_sum_days_def single_def first_month_def last_month_def date_range_MS_def
      overlap_days_def Let_def)

lemma agg_count_cells:
  "agg_count (concat (map (\<lambda>t. if P t then [if Q t then Some (x t) else None] else []) df))
   = int (length (filter (\<lambda>t. P t \<and> Q t) df))"
  by (induction df) (auto simp: agg_count_def)

lemma agg_sum_cells:
  "agg_sum (concat (map (\<lambda>t. if P t then [if Q t then Some (x t) else None] else []) df))
   = sum_list (map (\<lambda>t. if P t \<and> Q t then x t else 0) df)"
  by (induction df) (auto simp: agg_sum_def)

lemma breakdown_by_month_table:
  assumes "df \<noteq> []"
  shows "breakdown_by_month today df = Inr (count_table today df)"
proof -
  have "map (build_df today) df
        = map (\<lambda>t. single (first_month t) (last_month today t) (value_column t) (\<lambda>_. key_column t)) df"
    by (simp add: build_df_single)
  then show ?thesis
    unfolding breakdown_by_month_def count_table_def Let_def
    by (simp only: resample_concat_single[OF assms] agg_count_cells)
qed

lemma breakdown_by_month_sum_days_table:
  assumes "df \<noteq> []"
  shows "breakdown_by_month_sum_days today df = Inr (sum_table today df)"
proof -
  have "map (build_df_sum_days today) df
        = map (\<lambda>t. single (first_month t) (last_month today t) (value_column t) (overlap_days today t)) df"
    by (simp add: build_df_sum_days_single)
  then show ?thesis
    unfolding breakdown_by_month_sum_days_def sum_table_def Let_def
    by (simp only: resample_concat_single[OF assms] agg_sum_cells)
qed

section \<open>The monthly count table\<close>

lemma ts_le_months: "ts_le s e \<Longrightarrow> to_period_M s \<le> to_period_M e"
  by (auto simp: ts_le_def)

lemma month_span_intervals:
  assumes ne: "df \<noteq> []" and le: "\<forall>t \<in> set df. a t \<le> b t"
  shows "month_span (concat (map (\<lambda>t. [a t..b t]) df)) = [Min (a ` set df)..Max (b ` set df)]"
proof -
  let ?ix = "concat (map (\<lambda>t. [a t..b t]) df)"
  have s: "set ?ix = (\<Union>t \<in> set df. {a t..b t})" by simp
  obtain t0 where t0: "t0 \<in> set df" using ne by (cases df) auto
  have fin: "finite (a ` set df)" "finite (b ` set df)" "a ` set df \<noteq> {}" "b ` set df \<noteq> {}"
    using t0 by auto
  have nonempty: "?ix \<noteq> []"
  proof
    assume "?ix = []"
    then have "set ?ix = {}" by simp
    moreover have "a t0 \<in> set ?ix" unfolding s using t0 le by auto
    ultimately show False by simp
  qed
  have mn: "Min (set ?ix) = Min (a ` set df)"
  proof (rule Min_eqI)
    show "finite (set ?ix)" by simp
  next
    fix y assume "y \<in> set ?ix"
    then obtain t where t: "t \<in> set df" "a t \<le> y" unfolding s by auto
    have "Min (a ` set df) \<le> a t" using t(1) by (intro Min_le) auto
    then show "Min (a ` set df) \<le> y" using t(2) by simp
  next
    have "Min (a ` set df) \<in> a ` set df" using fin by (intro Min_in)
    then obtain t where t: "t \<in> set df" "Min (a ` set df) = a t" by auto
    then show "Min (a ` set df) \<in> set ?ix" unfolding s using le by auto
  qed
  have mx: "Max (set ?ix) = Max (b ` set df)"
  proof (rule Max_eqI)
    show "finite (set ?ix)" by simp
  next
    fix y assume "y \<in> set ?ix"
    then obtain t where t: "t \<in> set df" "y \<le> b t" unfolding s by auto
    have "b t \<le> Max (b ` set df)" using t(1) by (intro Max_ge) auto
    then show "y \<le> Max (b ` set df)" using t(2) by simp
  next
    have "Max (b ` set df) \<in> b ` set df" using fin by (intro Max_in)
    then obtain t where t: "t \<in> set df" "Max (b ` set df) = b t" by auto
    then show "Max (b ` set df) \<in> set ?ix" unfolding s using le by auto
  qed
  have "month_span ?ix = [Min (set ?ix)..Max (set ?ix)]"
    using nonempty by (simp only: month_span_def if_False)
  then show ?thesis by (simp only: mn mx)
qed

text \<open>
  C1: let \<open>F\<close> be the month of an item's start and \<open>L\<close> the month of its end, or of
  today when the item has no end, months being counted as \<open>12 * year + month - 1\<close>. For
  a non-empty list of items with \<open>F \<le> L\<close>, \<^verbatim>\<open>breakdown_by_month\<close> returns the table with
  one row for every month from the least \<open>F\<close> to the greatest \<open>L\<close>, without gaps, with
  the observed categories, sorted, as columns, whose cell of month \<open>m\<close> and category
  \<open>c\<close> is the number of items of category \<open>c\<close> with \<open>F \<le> m \<le> L\<close>. So every item
  adds 1 to each month it spans, both ends included, and a cell no item touches is the
  number 0.
\<close>

theorem breakdown_by_month_counts:
  assumes "F = (\<lambda>t. year (start_column t) * 12 + int (month (start_column t)) - 1)"
    and "L = (\<lambda>t. case end_column t of
                     None \<Rightarrow> year today * 12 + int (month today) - 1
                   | Some e \<Rightarrow> year e * 12 + int (month e) - 1)"
    and "df \<noteq> []" and "\<forall>t \<in> set df. F t \<le> L t"
    and "ms = [Min (F ` set df)..Max (L ` set df)]"
    and "cs = sorted_list_of_set (value_column ` set df)"
  shows "breakdown_by_month today df
         = Inr \<lparr>index = ms, columns = cs,
                rows = map (\<lambda>m. map (\<lambda>c. int (length (filter
                               (\<lambda>t. value_column t = c \<and> F t \<le> m \<and> m \<le> L t) df))) cs) ms\<rparr>"
proof -
  have F: "first_month = F"
    by (rule ext) (simp add: assms(1) first_month_def to_period_M_def)
  have L: "last_month today = L"
    by (rule ext) (simp add: assms(2) last_month_def effective_end_def to_period_M_def
        split: option.splits)
  have le: "\<forall>t \<in> set df. first_month t \<le> last_month today t"
    using assms(4) by (simp add: F L)
  have ix: "month_span (concat (map (\<lambda>t. [first_month t..last_month today t]) df)) = ms"
    using month_span_intervals[OF assms(3) le] by (simp add: F L assms(5))
  have cs: "sort (remdups (map value_column df)) = cs"
    by (simp add: assms(6) sorted_list_of_set_sort_remdups[symmetric])
  have P: "(\<lambda>t. (first_month t \<le> m \<and> m \<le> last_month today t) \<and> c = value_column t)
           = (\<lambda>t. value_column t = c \<and> F t \<le> m \<and> m \<le> L t)" for m c
    by (rule ext) (auto simp: F L)
  have "count_table today df
        = \<lparr>index = ms, columns = cs,
           rows = map (\<lambda>m. map (\<lambda>c. int (length (filter
                               (\<lambda>t. value_column t = c \<and> F t \<le> m \<and> m \<le> L t) df))) cs) ms\<rparr>"
    unfolding count_table_def Let_def ix cs P ..
  then show ?thesis by (simp only: breakdown_by_month_table[OF assms(3)])
qed

theorem breakdown_by_month_counts_witness:
  "breakdown_by_month \<lparr>year = 2018, month = 2, day = 10, time_of_day = 36000\<rparr>
     [\<lparr>key_column = ''A'', value_column = ''high'',
       start_column = \<lparr>year = 2017, month = 12, day = 1, time_of_day = 0\<rparr>,
       end_column = Some \<lparr>year = 2018, month = 3, day = 20, time_of_day = 0\<rparr>\<rparr>,
      \<lparr>key_column = ''B'', value_column = ''med'',
       start_column = \<lparr>year = 2018, month = 1, day = 2, time_of_day = 0\<rparr>,
       end_column = None\<rparr>]
   = Inr \<lparr>index = [24215, 24216, 24217, 24218], columns = [''high'', ''med''],
          rows = [[1, 0], [1, 1], [1, 1], [1, 0]]\<rparr>"
proof -
  let ?today = "\<lparr>year = 2018, month = 2, day = 10, time_of_day = 36000\<rparr>"
  let ?a = "\<lparr>key_column = ''A'', value_column = ''high'',
       start_column = \<lparr>year = 2017, month = 12, day = 1, time_of_day = 0\<rparr>,
       end_column = Some \<lparr>year = 2018, month = 3, day = 20, time_of_day = 0\<rparr>\<rparr>"
  let ?b = "\<lparr>key_column = ''B'', value_column = ''med'',
       start_column = \<lparr>year = 2018, month = 1, day = 2, time_of_day = 0\<rparr>,
       end_column = None\<rparr>"
  let ?F = "\<lambda>t :: string item. year (start_column t) * 12 + int (month (start_column t)) - 1"
  let ?L = "\<lambda>t :: string item. case end_column t of
                     None \<Rightarrow> year ?today * 12 + int (month ?today) - 1
                   | Some e \<Rightarrow> year e * 12 + int (month e) - 1"
  have h3: "[?a, ?b] \<noteq> []" by simp
  have h4: "\<forall>t \<in> set [?a, ?b]. ?F t \<le> ?L t" by simp
  have ms: "[24215, 24216, 24217, 24218] = [Min (?F ` set [?a, ?b])..Max (?L ` set [?a, ?b])]"
    by (simp add: upto.simps)
  have cs: "[''high'', ''med''] = sorted_list_of_set (value_column ` set [?a, ?b])"
    by code_simp
  show ?thesis
    using breakdown_by_month_counts [OF refl refl h3 h4 ms cs] by simp
qed

section \<open>Invariance under permutation of the items\<close>

lemma month_span_cong: "set ix = set ix' \<Longrightarrow> month_span ix = month_span ix'"
  by (auto simp: month_span_def)

lemma length_filter_mset: "mset xs = mset ys \<Longrightarrow> length (filter P xs) = length (filter P ys)"
proof -
  assume "mset xs = mset ys"
  then have "mset (filter P xs) = mset (filter P ys)" by simp
  then show ?thesis by (rule mset_eq_length)
qed

lemma sum_list_map_mset:
  fixes f :: "'a \<Rightarrow> int"
  shows "mset xs = mset ys \<Longrightarrow> sum_list (map f xs) = sum_list (map f ys)"
proof -
  assume "mset xs = mset ys"
  then have "mset (map f xs) = mset (map f ys)" by simp
  then have "sum_mset (mset (map f xs)) = sum_mset (mset (map f ys))" by (rule arg_cong)
  then show ?thesis by (simp only: sum_mset_sum_list)
qed

lemma sort_remdups_mset:
  assumes "mset xs = mset ys"
  shows "sort (remdups (map f xs)) = sort (remdups (map f ys))"
proof -
  have "set xs = set ys" using assms by (rule mset_eq_setD)
  then have "set (map f xs) = set (map f ys)" by simp
  then have "sorted_list_of_set (set (map f xs)) = sorted_list_of_set (set (map f ys))"
    by (rule arg_cong)
  then show ?thesis by (simp only: sorted_list_of_set_sort_remdups)
qed

lemma span_mset:
  assumes "mset xs = mset ys"
  shows "month_span (concat (map h xs)) = month_span (concat (map h ys))"
proof -
  have "set xs = set ys" using assms by (rule mset_eq_setD)
  then have "set (concat (map h xs)) = set (concat (map h ys))" by simp
  then show ?thesis by (rule month_span_cong)
qed

lemma count_table_mset:
  assumes "mset df = mset df'"
  shows "count_table today df = count_table today df'"
  unfolding count_table_def Let_def
  by (simp only: span_mset[OF assms] sort_remdups_mset[OF assms] length_filter_mset[OF assms])

lemma sum_table_mset:
  assumes "mset df = mset df'"
  shows "sum_table today df = sum_table today df'"
  unfolding sum_table_def Let_def
  by (simp only: span_mset[OF assms] sort_remdups_mset[OF assms] sum_list_map_mset[OF assms])

text \<open>
  C3: \<^verbatim>\<open>breakdown_by_month\<close> and \<^verbatim>\<open>breakdown_by_month_sum_days\<close> give the same result
  (the same table, or the same error for no items) on two item sequences with the same
  multiset of items. Column labels are sorted by \<^verbatim>\<open>sort=True\<close>; the model takes labels that
  the library can order (a linear order, such as strings).
\<close>

theorem breakdown_permutation_invariant:
  assumes "mset df = mset df'"
  shows "breakdown_by_month today df = breakdown_by_month today df'
         \<and> breakdown_by_month_sum_days today df = breakdown_by_month_sum_days today df'"
proof (cases "df = []")
  case True
  then have "df' = []" using assms by simp
  with True show ?thesis by simp
next
  case False
  then have "df' \<noteq> []" using assms by auto
  with False show ?thesis
    using count_table_mset[OF assms, of today] sum_table_mset[OF assms, of today]
    by (simp add: breakdown_by_month_table breakdown_by_month_sum_days_table)
qed

theorem breakdown_permutation_invariant_witness:
  "(let today = \<lparr>year = 2018, month = 6, day = 1, time_of_day = 0\<rparr>;
        a = \<lparr>key_column = ''A'', value_column = ''high'',
               start_column = \<lparr>year = 2018, month = 1, day = 1, time_of_day = 0\<rparr>,
               end_column = Some \<lparr>year = 2018, month = 3, day = 20, time_of_day = 0\<rparr>\<rparr>;
        b = \<lparr>key_column = ''B'', value_column = ''med'',
               start_column = \<lparr>year = 2018, month = 1, day = 2, time_of_day = 0\<rparr>,
               end_column = None\<rparr>
    in mset [a, b] = mset [b, a]
       \<and> breakdown_by_month today [a, b] = breakdown_by_month today [b, a]
       \<and> breakdown_by_month_sum_days today [a, b] = breakdown_by_month_sum_days today [b, a])"
proof -
  let ?today = "\<lparr>year = 2018, month = 6, day = 1, time_of_day = 0\<rparr>"
  let ?a = "\<lparr>key_column = ''A'', value_column = ''high'',
               start_column = \<lparr>year = 2018, month = 1, day = 1, time_of_day = 0\<rparr>,
               end_column = Some \<lparr>year = 2018, month = 3, day = 20, time_of_day = 0\<rparr>\<rparr>"
  let ?b = "\<lparr>key_column = ''B'', value_column = ''med'',
               start_column = \<lparr>year = 2018, month = 1, day = 2, time_of_day = 0\<rparr>,
               end_column = None\<rparr>"
  have h: "mset [?a, ?b] = mset [?b, ?a]" by (simp add: add_mset_commute)
  show ?thesis
    unfolding Let_def using h breakdown_permutation_invariant [OF h, of ?today] by blast
qed

section \<open>Overlap days of an item within one month\<close>

lemma days_in_month_examples:
  "days_in_month (2018 * 12 + 0) = 31" "days_in_month (2018 * 12 + 1) = 28"
  "days_in_month (2016 * 12 + 1) = 29" "days_in_month (1900 * 12 + 1) = 28"
  "days_in_month (2000 * 12 + 1) = 29" "days_in_month (2018 * 12 + 3) = 30"
  by (simp_all add: days_in_month_def is_leap_def)

lemma to_period_M_month_days:
  "d \<in> set (month_days m) \<Longrightarrow> to_period_M d = m \<and> time_of_day d = 0"
  by (auto simp: month_days_def to_period_M_def)

lemma length_filter_between:
  "length (filter (\<lambda>d. a \<le> d \<and> d \<le> b) [l..<u]) = min u (Suc b) - max l a"
  by (induction u) auto

lemma intersection_filter: "intersection xs (filter P xs) = filter P xs"
  unfolding intersection_def by (rule filter_cong) auto

lemma overlap_days_same_month:
  assumes m: "to_period_M (start_column t) = to_period_M (effective_end today t)"
    and t0: "time_of_day (start_column t) = 0"
    and d1: "1 \<le> day (start_column t)"
    and le: "day (start_column t) \<le> day (effective_end today t)"
    and d2: "day (effective_end today t) \<le> days_in_month (to_period_M (start_column t))"
  shows "overlap_days today t (to_period_M (start_column t))
         = int (day (effective_end today t)) - int (day (start_column t)) + 1"
proof -
  let ?s = "start_column t" and ?e = "effective_end today t"
  let ?m = "to_period_M ?s"
  let ?P = "\<lambda>x. ts_le ?s x \<and> ts_le x ?e"
  have same: "map (\<lambda>d. d\<lparr>time_of_day := time_of_day ?s\<rparr>) (month_days ?m) = month_days ?m"
    by (simp add: t0 month_days_def)
  have dr: "date_range_D ?s ?e = filter ?P (month_days ?m)"
    by (simp add: date_range_D_def m[symmetric] same)
  have "filter ?P (month_days ?m) = filter (\<lambda>x. day ?s \<le> day x \<and> day x \<le> day ?e) (month_days ?m)"
  proof (rule filter_cong[OF refl])
    fix x assume "x \<in> set (month_days ?m)"
    then have x: "to_period_M x = ?m" "time_of_day x = 0" by (simp_all add: to_period_M_month_days)
    have "ts_le ?s x = (day ?s \<le> day x)" by (auto simp: ts_le_def x t0)
    moreover have "ts_le x ?e = (day x \<le> day ?e)" by (auto simp: ts_le_def x m[symmetric])
    ultimately show "(ts_le ?s x \<and> ts_le x ?e) = (day ?s \<le> day x \<and> day x \<le> day ?e)" by simp
  qed
  also have "length \<dots> = length (filter (\<lambda>d. day ?s \<le> d \<and> d \<le> day ?e) [1..<days_in_month ?m + 1])"
    by (simp add: month_days_def filter_map comp_def)
  also have "\<dots> = Suc (day ?e) - day ?s"
    using d1 d2 le unfolding length_filter_between by arith
  finally have "length (filter ?P (month_days ?m)) = Suc (day ?e) - day ?s" .
  then show ?thesis
    using le by (simp add: overlap_days_def dr intersection_filter)
qed

text \<open>
  C6: let \<open>e\<close> be the end of an item, or today when the item has no end. For an item that
  starts at midnight of day \<open>D1\<close> and whose \<open>e\<close> is on day \<open>D2\<close>, not before \<open>D1\<close>, of the
  same month of the same year, the frame \<^verbatim>\<open>build_df\<close> of \<^verbatim>\<open>breakdown_by_month_sum_days\<close>
  contributes for it has the single row of that month with the single value
  \<open>D2 - D1 + 1\<close>, and that is the table of the item alone. With \<open>D1 = D2\<close> the value is 1.
\<close>

theorem sum_days_same_month:
  assumes "e = (case end_column t of None \<Rightarrow> today | Some d \<Rightarrow> d)"
    and "time_of_day (start_column t) = 0"
    and "year (start_column t) = year e" and "month (start_column t) = month e"
    and "1 \<le> day (start_column t)"
    and "day (start_column t) \<le> day e"
    and "day e \<le> days_in_month (year e * 12 + int (month e) - 1)"
  shows "build_df_sum_days today t
           = \<lparr>index = [year e * 12 + int (month e) - 1], columns = [value_column t],
              rows = [[Some (int (day e) - int (day (start_column t)) + 1)]]\<rparr>
         \<and> breakdown_by_month_sum_days today [t]
           = Inr \<lparr>index = [year e * 12 + int (month e) - 1], columns = [value_column t],
                  rows = [[int (day e) - int (day (start_column t)) + 1]]\<rparr>"
proof -
  have e: "effective_end today t = e" using assms(1) by (simp add: effective_end_def)
  have pe: "to_period_M e = year e * 12 + int (month e) - 1" by (simp add: to_period_M_def)
  have ps: "to_period_M (start_column t) = year e * 12 + int (month e) - 1"
    using assms(3,4) by (simp add: to_period_M_def)
  have ov: "overlap_days today t (to_period_M (start_column t))
         = int (day e) - int (day (start_column t)) + 1"
    using overlap_days_same_month[of t today] assms(2,5,6,7) by (simp add: e ps pe)
  have lm: "last_month today t = to_period_M (start_column t)"
    by (simp add: last_month_def e ps pe)
  have a: "build_df_sum_days today t
           = \<lparr>index = [to_period_M (start_column t)], columns = [value_column t],
              rows = [[Some (int (day e) - int (day (start_column t)) + 1)]]\<rparr>"
    unfolding build_df_sum_days_single single_def by (simp add: first_month_def lm ov)
  have b: "sum_table today [t]
           = \<lparr>index = [to_period_M (start_column t)], columns = [value_column t],
              rows = [[int (day e) - int (day (start_column t)) + 1]]\<rparr>"
    by (simp add: sum_table_def month_span_def first_month_def lm ov)
  show ?thesis using a b by (simp add: breakdown_by_month_sum_days_table ps)
qed

theorem sum_days_same_month_witness:
  "build_df_sum_days \<lparr>year = 2018, month = 6, day = 25, time_of_day = 52200\<rparr>
       \<lparr>key_column = ''B'', value_column = ''med'',
        start_column = \<lparr>year = 2018, month = 6, day = 10, time_of_day = 0\<rparr>, end_column = None\<rparr>
     = \<lparr>index = [24221], columns = [''med''], rows = [[Some 16]]\<rparr>
   \<and> breakdown_by_month_sum_days \<lparr>year = 2018, month = 6, day = 25, time_of_day = 52200\<rparr>
       [\<lparr>key_column = ''B'', value_column = ''med'',
         start_column = \<lparr>year = 2018, month = 6, day = 10, time_of_day = 0\<rparr>, end_column = None\<rparr>]
     = Inr \<lparr>index = [24221], columns = [''med''], rows = [[16]]\<rparr>"
proof -
  let ?today = "\<lparr>year = 2018, month = 6, day = 25, time_of_day = 52200\<rparr>"
  let ?t = "\<lparr>key_column = ''B'', value_column = ''med'',
        start_column = \<lparr>year = 2018, month = 6, day = 10, time_of_day = 0\<rparr>, end_column = None\<rparr>"
  have h1: "?today = (case end_column ?t of None \<Rightarrow> ?today | Some d \<Rightarrow> d)" by simp
  have h2: "time_of_day (start_column ?t) = 0" by simp
  have h3: "year (start_column ?t) = year ?today" by simp
  have h4: "month (start_column ?t) = month ?today" by simp
  have h5: "1 \<le> day (start_column ?t)" by simp
  have h6: "day (start_column ?t) \<le> day ?today" by simp
  have h7: "day ?today \<le> days_in_month (year ?today * 12 + int (month ?today) - 1)"
    by (simp add: days_in_month_def)
  show ?thesis
    using sum_days_same_month [OF h1 h2 h3 h4 h5 h6 h7] by simp
qed

text \<open>
  A start that is not at midnight: the daily range keeps the start's time of day and meets
  no midnight of the month, so the item contributes 0 days.
\<close>

lemma overlap_days_not_midnight:
  assumes "time_of_day (start_column t) \<noteq> 0"
  shows "overlap_days today t m = 0"
proof -
  let ?ys = "date_range_D (start_column t) (effective_end today t)"
  have y: "time_of_day y = time_of_day (start_column t)" if "y \<in> set ?ys" for y
    using that by (auto simp: date_range_D_def)
  have "\<forall>x \<in> set (month_days m). x \<notin> set ?ys"
  proof
    fix x assume "x \<in> set (month_days m)"
    then have "time_of_day x = 0" by (simp add: to_period_M_month_days)
    then show "x \<notin> set ?ys" using y assms by auto
  qed
  then have "intersection (month_days m) ?ys = []"
    by (simp add: intersection_def filter_empty_conv)
  then show ?thesis by (simp add: overlap_days_def)
qed

lemma sum_days_start_after_midnight:
  "build_df_sum_days \<lparr>year = 2018, month = 6, day = 1, time_of_day = 0\<rparr>
       \<lparr>key_column = ''B'', value_column = ''med'',
        start_column = \<lparr>year = 2018, month = 1, day = 2, time_of_day = 36000\<rparr>,
        end_column = Some \<lparr>year = 2018, month = 1, day = 20, time_of_day = 36000\<rparr>\<rparr>
     = \<lparr>index = [24216], columns = [''med''], rows = [[Some 0]]\<rparr>"
  unfolding build_df_sum_days_single single_def
  by (simp add: overlap_days_not_midnight first_month_def last_month_def effective_end_def to_period_M_def)

section \<open>Empty input\<close>

text \<open>
  C2 (as stated: for zero items both \<^verbatim>\<open>breakdown_by_month\<close> and
  \<^verbatim>\<open>breakdown_by_month_sum_days\<close> return an empty table rather than raising an
  error). The code builds no frame for an empty input and hands the empty list to
  \<^verbatim>\<open>pd.concat\<close>, which raises \<^verbatim>\<open>ValueError\<close>: no table is returned. The statement
  below is the negation of the claim at the empty input.
\<close>

theorem breakdown_empty_counterexample:
  "\<not> (breakdown_by_month \<lparr>year = 2018, month = 6, day = 1, time_of_day = 0\<rparr> ([] :: string item list)
         = Inr \<lparr>index = [], columns = [], rows = []\<rparr>
       \<and> breakdown_by_month_sum_days \<lparr>year = 2018, month = 6, day = 1, time_of_day = 0\<rparr> ([] :: string item list)
         = Inr \<lparr>index = [], columns = [], rows = []\<rparr>)"
  by (simp add: breakdown_by_month_def pd_concat_def)

text \<open>
  C2 (amended): for zero items both \<^verbatim>\<open>breakdown_by_month\<close> and
  \<^verbatim>\<open>breakdown_by_month_sum_days\<close> raise \<^verbatim>\<open>ValueError\<close> (from \<^verbatim>\<open>pd.concat\<close> of no
  frames) and return no table; the defects calculator does not call them with zero items:
  \<^verbatim>\<open>DefectsCalculator.write\<close> returns before, without a chart.
\<close>

theorem breakdown_empty_raises:
  "breakdown_by_month today [] = Inl ValueError
   \<and> breakdown_by_month_sum_days today [] = Inl ValueError
   \<and> DefectsCalculator_write argsort today (Some []) field_values window threshold sort_flag = Inr None"
  by (simp add: breakdown_by_month_def breakdown_by_month_sum_days_def pd_concat_def
      DefectsCalculator_write_def)

theorem breakdown_empty_raises_witness:
  "breakdown_by_month \<lparr>year = 2018, month = 6, day = 1, time_of_day = 0\<rparr> ([] :: string item list) = Inl ValueError
   \<and> breakdown_by_month_sum_days \<lparr>year = 2018, month = 6, day = 1, time_of_day = 0\<rparr> ([] :: string item list)
       = Inl ValueError
   \<and> DefectsCalculator_write stable_argsort \<lparr>year = 2018, month = 6, day = 1, time_of_day = 0\<rparr> (Some []) None None
         (Some 5) True = Inr None"
  using breakdown_empty_raises [of "\<lparr>year = 2018, month = 6, day = 1, time_of_day = 0\<rparr>" stable_argsort None None "Some 5" True]
  by simp

section \<open>Collapsing columns below a threshold\<close>

lemma zip_self_map: "zip xs (map g xs) = map (\<lambda>r. (r, g r)) xs"
  by (induction xs) simp_all

lemma set_column_new:
  assumes "label \<notin> set (columns df)"
  shows "set_column df label (map g (rows df))
         = df\<lparr>columns := columns df @ [label], rows := map (\<lambda>r. r @ [g r]) (rows df)\<rparr>"
  using assms by (simp add: set_column_def zip_self_map)

lemma keep_append:
  assumes "length xs = length bs"
  shows "map fst (filter snd (zip (xs @ [x]) (map Not (bs @ [False]))))
         = map fst (filter (\<lambda>p. \<not> snd p) (zip xs bs)) @ [x]"
proof -
  have "zip xs (map Not bs) = map (\<lambda>p. (fst p, \<not> snd p)) (zip xs bs)"
    by (simp add: zip_map2 case_prod_beta)
  then have "map fst (filter snd (zip xs (map Not bs))) = map fst (filter (\<lambda>p. \<not> snd p) (zip xs bs))"
    by (simp add: filter_map comp_def)
  then show ?thesis using assms by simp
qed

lemma loc_mask_rows_length: "length (rows (loc_mask d bs)) = length (rows d)"
  by (simp add: loc_mask_def)

lemma loc_mask_index: "index (loc_mask d bs) = index d"
  by (simp add: loc_mask_def)

lemma set_column_rows_length:
  "length (rows (set_column df label (map g (rows df)))) = length (rows df)"
  by (simp add: set_column_def)

lemma set_column_index: "index (set_column df label vals) = index df"
  by (simp add: set_column_def)

lemma kept_overwritten:
  "length bs = length cs \<Longrightarrow> label \<in> set cs \<Longrightarrow>
   label \<in> set (map fst (filter snd (zip cs (map Not (map (\<lambda>(c, x). if c = label then False else x) (zip cs bs))))))"
proof (induction cs arbitrary: bs)
  case Nil
  then show ?case by simp
next
  case (Cons c cs)
  then obtain b bs' where bs: "bs = b # bs'" by (cases bs) auto
  show ?case
  proof (cases "c = label")
    case True
    then show ?thesis by (simp add: bs)
  next
    case False
    then have "label \<in> set cs" using Cons.prems(2) by simp
    moreover have "length bs' = length cs" using Cons.prems(1) bs by simp
    ultimately have "label \<in> set (map fst (filter snd (zip cs (map Not
                         (map (\<lambda>(c, x). if c = label then False else x) (zip cs bs'))))))"
      by (rule Cons.IH[rotated])
    then show ?thesis by (simp add: bs)
  qed
qed

lemma kept_label:
  assumes "length bs = length (columns df)"
  shows "label \<in> set (columns (loc_mask (set_column df label vals)
                                        (map Not (set_mask (columns df) bs label False))))"
proof (cases "label \<in> set (columns df)")
  case True
  have "columns (loc_mask (set_column df label vals) (map Not (set_mask (columns df) bs label False)))
        = map fst (filter snd (zip (columns df) (map Not
                         (map (\<lambda>(c, x). if c = label then False else x) (zip (columns df) bs)))))"
    using True by (simp add: loc_mask_def set_column_def set_mask_def)
  then show ?thesis using kept_overwritten[OF assms True] by simp
next
  case False
  have "columns (loc_mask (set_column df label vals) (map Not (set_mask (columns df) bs label False)))
        = map fst (filter snd (zip (columns df @ [label]) (map Not (bs @ [False]))))"
    using False by (simp add: loc_mask_def set_column_def set_mask_def)
  then show ?thesis using assms by (simp only: keep_append) simp
qed

lemma filter_snd_all_false:
  assumes "\<forall>b \<in> set bs. \<not> b"
  shows "filter snd (zip r bs) = []"
  unfolding filter_empty_conv
proof
  fix p assume "p \<in> set (zip r bs)"
  then have "snd p \<in> set bs" using set_zip_rightD[of "fst p" "snd p" r bs] by simp
  then show "\<not> snd p" using assms by blast
qed

lemma keep_all_true:
  assumes "length r \<le> length bs" and "\<forall>b \<in> set bs. b"
  shows "map fst (filter snd (zip r bs)) = r"
proof -
  have "\<forall>p \<in> set (zip r bs). snd p"
  proof
    fix p assume "p \<in> set (zip r bs)"
    then have "snd p \<in> set bs" using set_zip_rightD[of "fst p" "snd p" r bs] by simp
    then show "snd p" using assms(2) by blast
  qed
  then have "filter snd (zip r bs) = zip r bs" by (simp only: filter_id_conv)
  then show ?thesis using assms(1) by (simp add: map_fst_zip_take)
qed

lemma loc_mask_all_true:
  assumes "\<forall>b \<in> set bs. b" and "length (columns d) \<le> length bs"
    and "\<forall>r \<in> set (rows d). length r \<le> length bs"
  shows "loc_mask d bs = d"
proof -
  have "map (\<lambda>r. map fst (filter snd (zip r bs))) (rows d) = map (\<lambda>r. r) (rows d)"
    using assms by (intro map_cong[OF refl]) (simp add: keep_all_true)
  moreover have "map fst (filter snd (zip (columns d) bs)) = columns d"
    using assms by (simp add: keep_all_true)
  ultimately show ?thesis
    by (cases d) (simp add: loc_mask_def)
qed

lemma set_mask_all_false:
  assumes "\<forall>b \<in> set bs. \<not> b"
  shows "\<forall>b \<in> set (map Not (set_mask cs bs label False)). b"
proof -
  have "\<forall>b \<in> set (set_mask cs bs label False). \<not> b"
  proof (cases "label \<in> set cs")
    case True
    have "\<forall>p \<in> set (zip cs bs). \<not> snd p"
    proof
      fix p assume "p \<in> set (zip cs bs)"
      then have "snd p \<in> set bs" using set_zip_rightD[of "fst p" "snd p" cs bs] by simp
      then show "\<not> snd p" using assms by blast
    qed
    then show ?thesis using True by (fastforce simp: set_mask_def split: if_splits)
  next
    case False
    then show ?thesis using assms by (auto simp: set_mask_def)
  qed
  then show ?thesis by auto
qed

lemma set_column_fits:
  assumes "wf_frame df" and "length bs = length (columns df)"
  shows "length (columns (set_column df label (map g (rows df)))) \<le> length (set_mask (columns df) bs label b)"
    and "\<forall>r \<in> set (rows (set_column df label (map g (rows df)))).
            length r \<le> length (set_mask (columns df) bs label b)"
  using assms by (auto simp: set_column_def set_mask_def wf_frame_def list_all_iff zip_self_map)

text \<open>The two numeric primitives on concrete numbers: wrap-around, and rounding to 53 bits
  with halves to even.\<close>

lemma int64_examples:
  "int64 5 = 5" "int64 (- 7) = - 7" "int64 (2 ^ 63) = - (2 ^ 63)" "int64 (2 ^ 63 - 1) = 2 ^ 63 - 1"
  "int64 (2 ^ 64 + 3) = 3"
  by (simp_all add: int64_def)

lemma float64_examples:
  "float64 1 = 1" "float64 100 = 100" "float64 (1 / 2) = 1 / 2"
  "float64 (1 / 3) = 6004799503160661 / 2 ^ 54"
  "float64 (1 / 10) = 3602879701896397 / 2 ^ 55"
  "float64 9007199254740993 = 9007199254740992"
  "float64 9007199254740995 = 9007199254740996"
  "float64 (- 5 / 2) = - 5 / 2"
  by code_simp+

lemma getitem_1_label:
  assumes "filter (\<lambda>i. idx ! i = Int_label 1) [0..<length idx] = [k]"
  shows "getitem_1 idx vals = Inr (vals ! k)"
  by (simp add: getitem_1_def assms)

lemma getitem_1_position:
  assumes "list_all is_time_label idx" and "2 \<le> length vals" and "idx \<noteq> []"
  shows "getitem_1 idx vals = Inr (vals ! 1)"
proof -
  have "\<forall>i < length idx. idx ! i \<noteq> Int_label 1"
    using assms(1) by (auto simp: list_all_length is_time_label_def)
  then have f: "filter (\<lambda>i. idx ! i = Int_label 1) [0..<length idx] = []"
    by (simp add: filter_empty_conv)
  obtain l ls where idx: "idx = l # ls" using assms(3) by (cases idx) auto
  then have "is_time_label l" using assms(1) by simp
  then have "\<not> is_int_label l" by (cases l) (simp_all add: is_time_label_def is_int_label_def)
  then have "\<not> list_all is_int_label idx" by (simp add: idx)
  then show ?thesis using assms(2) by (simp add: getitem_1_def f)
qed

lemma filter_by_threshold_unfold:
  assumes wf: "wf_frame df" and th: "th \<noteq> 0"
    and H: "(list_all is_time_label (index df) \<and> 2 \<le> length (rows df) \<and> k = 1)
            \<or> filter (\<lambda>i. index df ! i = Int_label 1) [0..<length (index df)] = [k]"
    and T: "T = int64 (sum_list (rows df ! k))"
    and m: "m = map (\<lambda>j. \<forall>r \<in> set (rows df).
                      if T = 0 then r ! j < 0
                      else float64 (float64 (float64 (of_int (r ! j)) * 100) / float64 (of_int T))
                           < float64 th)
                  [0..<length (columns df)]"
  shows "filter_by_threshold df (Some th)
         = Inr (loc_mask (set_column df ''Others''
                            (map (\<lambda>r. int64 (sum_list (map fst (filter snd (zip r m))))) (rows df)))
                         (map Not (set_mask (columns df) m ''Others'' False)),
                set_column df ''Others''
                            (map (\<lambda>r. int64 (sum_list (map fst (filter snd (zip r m))))) (rows df)))"
proof -
  let ?totals = "map (\<lambda>r. int64 (sum_list r)) (rows df)"
  have len: "length (rows df) = length (index df)" using wf by (simp add: wf_frame_def)
  have g: "getitem_1 (index df) ?totals = Inr T"
    using H
  proof
    assume a: "list_all is_time_label (index df) \<and> 2 \<le> length (rows df) \<and> k = 1"
    then have "index df \<noteq> []" using len by auto
    then have "getitem_1 (index df) ?totals = Inr (?totals ! 1)"
      using a by (intro getitem_1_position) simp_all
    then show ?thesis using a by (simp add: T)
  next
    assume a: "filter (\<lambda>i. index df ! i = Int_label 1) [0..<length (index df)] = [k]"
    have "k \<in> set (filter (\<lambda>i. index df ! i = Int_label 1) [0..<length (index df)])"
      by (simp only: a) simp
    then have "k < length (rows df)" using len by simp
    then show ?thesis using getitem_1_label[OF a, of ?totals] by (simp add: T)
  qed
  have mask: "map (\<lambda>j. list_all (\<lambda>r. share_below (r ! j) T th) (rows df)) [0..<length (columns df)] = m"
    by (simp add: m list_all_iff share_below_def)
  show ?thesis
    using th by (simp add: filter_by_threshold_def Let_def g mask)
qed

text \<open>
  C4 (amended): take a rectangular table without a column labelled \<^verbatim>\<open>Others\<close> and a
  non-zero threshold. Let \<open>k\<close> be 1 when the rows are labelled by timestamps (as the
  monthly tables are) and there are at least two rows, or the position of the one row
  labelled by the integer 1. Let \<open>T\<close> be the total of row \<open>k\<close>, as a 64-bit sum. A column
  is collapsed exactly when in every row its share \<open>value * 100 / T\<close>, computed in double
  precision, is below the threshold (for \<open>T = 0\<close>: when every value is negative). Then
  \<^verbatim>\<open>filter_by_threshold\<close> returns the rows of the input with the columns that are not
  collapsed, in their order, followed by the column \<^verbatim>\<open>Others\<close>, which holds row by row the
  64-bit sum of the collapsed columns. (The second component is the input as the call
  leaves it.)
\<close>

theorem filter_by_threshold_collapse:
  assumes "wf_frame df" and "th \<noteq> 0" and "''Others'' \<notin> set (columns df)"
    and "(list_all is_time_label (index df) \<and> 2 \<le> length (rows df) \<and> k = 1)
         \<or> filter (\<lambda>i. index df ! i = Int_label 1) [0..<length (index df)] = [k]"
    and "T = int64 (sum_list (rows df ! k))"
    and "m = map (\<lambda>j. \<forall>r \<in> set (rows df).
                      if T = 0 then r ! j < 0
                      else float64 (float64 (float64 (of_int (r ! j)) * 100) / float64 (of_int T))
                           < float64 th)
                  [0..<length (columns df)]"
  shows "filter_by_threshold df (Some th)
         = Inr (\<lparr>index = index df,
                 columns = map fst (filter (\<lambda>p. \<not> snd p) (zip (columns df) m)) @ [''Others''],
                 rows = map (\<lambda>r. map fst (filter (\<lambda>p. \<not> snd p) (zip r m))
                                  @ [int64 (sum_list (map fst (filter snd (zip r m))))]) (rows df)\<rparr>,
                \<lparr>index = index df, columns = columns df @ [''Others''],
                 rows = map (\<lambda>r. r @ [int64 (sum_list (map fst (filter snd (zip r m))))]) (rows df)\<rparr>)"
proof -
  let ?g = "\<lambda>r. int64 (sum_list (map fst (filter snd (zip r m))))"
  let ?df' = "set_column df ''Others'' (map ?g (rows df))"
  let ?res = "loc_mask ?df' (map Not (set_mask (columns df) m ''Others'' False))"
  have u: "filter_by_threshold df (Some th) = Inr (?res, ?df')"
    using assms(1,2,4,5,6) by (rule filter_by_threshold_unfold)
  have lm: "length m = length (columns df)" by (simp add: assms(6))
  have df': "?df' = df\<lparr>columns := columns df @ [''Others''], rows := map (\<lambda>r. r @ [?g r]) (rows df)\<rparr>"
    using assms(3) by (rule set_column_new)
  have df'': "?df' = \<lparr>index = index df, columns = columns df @ [''Others''],
                       rows = map (\<lambda>r. r @ [?g r]) (rows df)\<rparr>"
    unfolding df' by (cases df) simp
  have sm: "set_mask (columns df) m ''Others'' False = m @ [False]"
    using assms(3) by (simp add: set_mask_def)
  have lr: "\<forall>r \<in> set (rows df). length r = length m"
    using assms(1) by (simp add: wf_frame_def list_all_iff lm)
  have c: "columns ?res = map fst (filter (\<lambda>p. \<not> snd p) (zip (columns df) m)) @ [''Others'']"
    unfolding sm df' loc_mask_def by (simp add: keep_append lm del: map_append)
  have r: "rows ?res = map (\<lambda>r. map fst (filter (\<lambda>p. \<not> snd p) (zip r m)) @ [?g r]) (rows df)"
    unfolding sm df' loc_mask_def using lr by (simp add: keep_append del: map_append)
  have i: "index ?res = index df"
    unfolding df' loc_mask_def by simp
  have "?res = \<lparr>index = index df,
                 columns = map fst (filter (\<lambda>p. \<not> snd p) (zip (columns df) m)) @ [''Others''],
                 rows = map (\<lambda>r. map fst (filter (\<lambda>p. \<not> snd p) (zip r m)) @ [?g r]) (rows df)\<rparr>"
    using c r i by (cases ?res) simp
  then show ?thesis using u df'' by simp
qed

theorem filter_by_threshold_collapse_witness:
  "filter_by_threshold
     \<lparr>index = [Time_label 24216, Time_label 24217], columns = [''a'', ''b''],
      rows = [[1, 9], [10, 90]]\<rparr> (Some 11)
   = Inr (\<lparr>index = [Time_label 24216, Time_label 24217], columns = [''b'', ''Others''],
           rows = [[9, 1], [90, 10]]\<rparr>,
          \<lparr>index = [Time_label 24216, Time_label 24217], columns = [''a'', ''b'', ''Others''],
           rows = [[1, 9, 1], [10, 90, 10]]\<rparr>)"
proof -
  let ?df = "\<lparr>index = [Time_label 24216, Time_label 24217], columns = [''a'', ''b''],
      rows = [[1, 9], [10, 90 :: int]]\<rparr>"
  have h1: "wf_frame ?df" by (simp add: wf_frame_def)
  have h2: "(11 :: rat) \<noteq> 0" by simp
  have h3: "''Others'' \<notin> set (columns ?df)" by simp
  have h4: "(list_all is_time_label (index ?df) \<and> 2 \<le> length (rows ?df) \<and> (1 :: nat) = 1)
         \<or> filter (\<lambda>i. index ?df ! i = Int_label 1) [0..<length (index ?df)] = [1]"
    by (simp add: is_time_label_def)
  have h5: "100 = int64 (sum_list (rows ?df ! 1))" by (simp add: int64_def)
  have h6: "[True, False] = map (\<lambda>j. \<forall>r \<in> set (rows ?df).
                      if (100 :: int) = 0 then r ! j < 0
                      else float64 (float64 (float64 (of_int (r ! j)) * 100) / float64 (of_int 100))
                           < float64 11)
                  [0..<length (columns ?df)]"
    by code_simp
  show ?thesis
    using filter_by_threshold_collapse [OF h1 h2 h3 h4 h5 h6] by (simp add: int64_def)
qed

text \<open>
  C4 (as stated: for every table with at least two rows the collapsed columns are removed
  and their sums appear in an \<^verbatim>\<open>Others\<close> column placed last). On a table that already has
  a column labelled \<^verbatim>\<open>Others\<close> the assignment \<^verbatim>\<open>df["Others"] = ...\<close> overwrites that column
  where it stands and the mask keeps it: with columns \<^verbatim>\<open>Others, b\<close>, rows \<^verbatim>\<open>(1, 99)\<close> twice
  and threshold 50 the column \<^verbatim>\<open>Others\<close> has a share below the threshold in every row, and
  the result still has it, first, before \<^verbatim>\<open>b\<close>. And on a table whose rows are labelled by
  the integers 5 and 6, \<^verbatim>\<open>total[1]\<close> looks for the label 1 and raises \<^verbatim>\<open>KeyError\<close>: there is
  no result.
\<close>

theorem filter_by_threshold_collapse_counterexample:
  "filter_by_threshold
     \<lparr>index = [Time_label 24216, Time_label 24217], columns = [''Others'', ''b''],
      rows = [[1, 99], [1, 99]]\<rparr> (Some 50)
   = Inr (\<lparr>index = [Time_label 24216, Time_label 24217], columns = [''Others'', ''b''],
           rows = [[1, 99], [1, 99]]\<rparr>,
          \<lparr>index = [Time_label 24216, Time_label 24217], columns = [''Others'', ''b''],
           rows = [[1, 99], [1, 99]]\<rparr>)
   \<and> filter_by_threshold
     \<lparr>index = [Int_label 5, Int_label 6], columns = [''a'', ''b''],
      rows = [[1, 99], [1, 99]]\<rparr> (Some 50)
   = Inl KeyError"
  by code_simp

lemma others_all_zero:
  assumes "\<forall>b \<in> set bs. \<not> b"
  shows "map (\<lambda>r. int64 (sum_list (map fst (filter snd (zip r bs))))) rs = map (\<lambda>r. (0 :: int)) rs"
  by (simp add: filter_snd_all_false[OF assms] int64_def)

lemma set_column_zeros:
  "set_column df ''Others'' (map (\<lambda>r. 0) (rows df))
   = (if ''Others'' \<in> set (columns df)
      then \<lparr>index = index df, columns = columns df,
            rows = map (\<lambda>r. map (\<lambda>p. if fst p = ''Others'' then 0 else snd p) (zip (columns df) r))
                       (rows df)\<rparr>
      else \<lparr>index = index df, columns = columns df @ [''Others''],
            rows = map (\<lambda>r. r @ [0]) (rows df)\<rparr>)"
  by (cases df) (simp add: set_column_def zip_self_map case_prod_beta)

text \<open>
  C10 (amended): take a rectangular table and a non-zero threshold, with \<open>k\<close> and \<open>T\<close> as
  for C4: the rows are labelled by timestamps and are at least two (\<open>k = 1\<close>), or exactly
  one row is labelled by the integer 1 (at position \<open>k\<close>). Then the result of
  \<^verbatim>\<open>filter_by_threshold\<close> has a column \<^verbatim>\<open>Others\<close>, the row labels and the number of rows of
  the input; when no column qualifies for collapsing the result is the input with the
  column \<^verbatim>\<open>Others\<close> set to 0 in every row (appended when the input has no such column).
\<close>

theorem filter_by_threshold_others:
  assumes "wf_frame df" and "th \<noteq> 0"
    and "(list_all is_time_label (index df) \<and> 2 \<le> length (rows df) \<and> k = 1)
         \<or> filter (\<lambda>i. index df ! i = Int_label 1) [0..<length (index df)] = [k]"
    and "T = int64 (sum_list (rows df ! k))"
    and "m = map (\<lambda>j. \<forall>r \<in> set (rows df).
                      if T = 0 then r ! j < 0
                      else float64 (float64 (float64 (of_int (r ! j)) * 100) / float64 (of_int T))
                           < float64 th)
                  [0..<length (columns df)]"
  shows "\<exists>res df'. filter_by_threshold df (Some th) = Inr (res, df')
           \<and> ''Others'' \<in> set (columns res)
           \<and> length (rows res) = length (rows df)
           \<and> index res = index df
           \<and> ((\<forall>b \<in> set m. \<not> b)
                \<longrightarrow> res = (if ''Others'' \<in> set (columns df)
                           then \<lparr>index = index df, columns = columns df,
                                 rows = map (\<lambda>r. map (\<lambda>p. if fst p = ''Others'' then 0 else snd p)
                                                      (zip (columns df) r)) (rows df)\<rparr>
                           else \<lparr>index = index df, columns = columns df @ [''Others''],
                                 rows = map (\<lambda>r. r @ [0]) (rows df)\<rparr>))"
proof -
  let ?g = "\<lambda>r. int64 (sum_list (map fst (filter snd (zip r m))))"
  let ?df' = "set_column df ''Others'' (map ?g (rows df))"
  let ?bs = "map Not (set_mask (columns df) m ''Others'' False)"
  let ?res = "loc_mask ?df' ?bs"
  have u: "filter_by_threshold df (Some th) = Inr (?res, ?df')"
    using assms by (rule filter_by_threshold_unfold)
  have lm: "length m = length (columns df)" by (simp add: assms(5))
  have a: "''Others'' \<in> set (columns ?res)"
    using lm by (rule kept_label)
  have b: "length (rows ?res) = length (rows df)"
    by (simp only: loc_mask_rows_length set_column_rows_length)
  have c: "index ?res = index df"
    by (simp only: loc_mask_index set_column_index)
  have d: "?res = (if ''Others'' \<in> set (columns df)
                           then \<lparr>index = index df, columns = columns df,
                                 rows = map (\<lambda>r. map (\<lambda>p. if fst p = ''Others'' then 0 else snd p)
                                                      (zip (columns df) r)) (rows df)\<rparr>
                           else \<lparr>index = index df, columns = columns df @ [''Others''],
                                 rows = map (\<lambda>r. r @ [0]) (rows df)\<rparr>)"
    if none: "\<forall>b \<in> set m. \<not> b"
  proof -
    have t: "\<forall>b \<in> set ?bs. b" using none by (rule set_mask_all_false)
    have l1: "length (columns ?df') \<le> length ?bs"
      using set_column_fits(1)[OF assms(1) lm] by simp
    have l2: "\<forall>r \<in> set (rows ?df'). length r \<le> length ?bs"
      using set_column_fits(2)[OF assms(1) lm] by simp
    have "?res = ?df'" using t l1 l2 by (rule loc_mask_all_true)
    then show ?thesis by (simp only: others_all_zero[OF none] set_column_zeros)
  qed
  show ?thesis using u a b c d by blast
qed

text \<open>
  C10 (as stated: for every table with at least two rows the result has a column
  \<^verbatim>\<open>Others\<close>). On a table whose rows are labelled by the integers 5 and 6,
  \<^verbatim>\<open>total[1]\<close> looks for the label 1 and raises \<^verbatim>\<open>KeyError\<close>: there is no result.
\<close>

theorem filter_by_threshold_others_counterexample:
  "filter_by_threshold
     \<lparr>index = [Int_label 5, Int_label 6], columns = [''a'', ''b''],
      rows = [[40, 60], [50, 50]]\<rparr> (Some 10)
   = Inl KeyError"
  by code_simp

theorem filter_by_threshold_others_witness:
  "\<exists>df'. filter_by_threshold
     \<lparr>index = [Time_label 24216, Time_label 24217], columns = [''a'', ''b''],
      rows = [[40, 60], [50, 50]]\<rparr> (Some 10)
   = Inr (\<lparr>index = [Time_label 24216, Time_label 24217], columns = [''a'', ''b'', ''Others''],
           rows = [[40, 60, 0], [50, 50, 0]]\<rparr>, df')"
proof -
  let ?df = "\<lparr>index = [Time_label 24216, Time_label 24217], columns = [''a'', ''b''],
      rows = [[40, 60], [50, 50 :: int]]\<rparr>"
  have h1: "wf_frame ?df" by (simp add: wf_frame_def)
  have h2: "(10 :: rat) \<noteq> 0" by simp
  have h3: "(list_all is_time_label (index ?df) \<and> 2 \<le> length (rows ?df) \<and> (1 :: nat) = 1)
         \<or> filter (\<lambda>i. index ?df ! i = Int_label 1) [0..<length (index ?df)] = [1]"
    by (simp add: is_time_label_def)
  have h4: "100 = int64 (sum_list (rows ?df ! 1))" by (simp add: int64_def)
  have h5: "[False, False] = map (\<lambda>j. \<forall>r \<in> set (rows ?df).
                      if (100 :: int) = 0 then r ! j < 0
                      else float64 (float64 (float64 (of_int (r ! j)) * 100) / float64 (of_int 100))
                           < float64 10)
                  [0..<length (columns ?df)]"
    by code_simp
  from filter_by_threshold_others [OF h1 h2 h3 h4 h5]
  obtain res df' where r: "filter_by_threshold ?df (Some 10) = Inr (res, df')"
    and z: "(\<forall>b \<in> set [False, False]. \<not> b)
            \<longrightarrow> res = (if ''Others'' \<in> set (columns ?df)
                           then \<lparr>index = index ?df, columns = columns ?df,
                                 rows = map (\<lambda>r. map (\<lambda>p. if fst p = ''Others'' then 0 else snd p)
                                                      (zip (columns ?df) r)) (rows ?df)\<rparr>
                           else \<lparr>index = index ?df, columns = columns ?df @ [''Others''],
                                 rows = map (\<lambda>r. r @ [0]) (rows ?df)\<rparr>)"
    by blast
  have "res = \<lparr>index = [Time_label 24216, Time_label 24217], columns = [''a'', ''b'', ''Others''],
           rows = [[40, 60, 0], [50, 50, 0]]\<rparr>"
    using z by simp
  then show ?thesis using r by blast
qed

text \<open>
  C5 (the filters leave their input table unchanged): \<^verbatim>\<open>filter_by_columns\<close>,
  \<^verbatim>\<open>filter_by_window\<close> and \<^verbatim>\<open>sort_colums_by_last_row\<close> only read their argument, but
  \<^verbatim>\<open>filter_by_threshold\<close> assigns \<^verbatim>\<open>df["Others"]\<close> on its argument. The second component
  below is the caller's table after the call: it has gained the column \<^verbatim>\<open>Others\<close>.
\<close>

theorem filter_by_threshold_mutates_input:
  "filter_by_threshold
     \<lparr>index = [Int_label 0, Int_label 1], columns = [''a'', ''b''], rows = [[1, 99], [1, 99]]\<rparr>
     (Some 50)
   = Inr (\<lparr>index = [Int_label 0, Int_label 1], columns = [''b'', ''Others''],
           rows = [[99, 1], [99, 1]]\<rparr>,
          \<lparr>index = [Int_label 0, Int_label 1], columns = [''a'', ''b'', ''Others''],
           rows = [[1, 99, 1], [1, 99, 1]]\<rparr>)"
  by code_simp

text \<open>
  \<^verbatim>\<open>total[1]\<close> on integer labels is the total of the row labelled 1, wherever it stands: here
  the first row, with total 10, so that no column is below 11 percent in both rows. A
  table labelled by timestamps with a single row has no position 1.
\<close>

lemma filter_by_threshold_label_lookup:
  "filter_by_threshold
     \<lparr>index = [Int_label 1, Int_label 0], columns = [''a'', ''b''], rows = [[1, 9], [10, 90]]\<rparr>
     (Some 11)
   = Inr (\<lparr>index = [Int_label 1, Int_label 0], columns = [''a'', ''b'', ''Others''],
           rows = [[1, 9, 0], [10, 90, 0]]\<rparr>,
          \<lparr>index = [Int_label 1, Int_label 0], columns = [''a'', ''b'', ''Others''],
           rows = [[1, 9, 0], [10, 90, 0]]\<rparr>)"
  by code_simp

lemma filter_by_threshold_one_row:
  "filter_by_threshold \<lparr>index = [Time_label 24216], columns = [''a'', ''b''], rows = [[1, 99]]\<rparr> (Some 50)
   = Inl IndexError"
  by code_simp

section \<open>Sorting the columns by the last row\<close>






lemma is_argsort_stable: "is_argsort stable_argsort vs"
  by (simp add: is_argsort_def stable_argsort_def)

lemma nargsort_stable_ties:
  "filter (\<lambda>i. r ! i = k) (nargsort stable_argsort r False) = filter (\<lambda>i. r ! i = k) [0..<length r]"
proof -
  let ?n = "length r"
  let ?f = "\<lambda>i. rev [0..<?n] ! i"
  let ?q = "sort_key (\<lambda>i. rev r ! i) [0..<?n]"
  have p: "nargsort stable_argsort r False = rev (map ?f ?q)"
    by (simp add: nargsort_def stable_argsort_def Let_def)
  have val: "r ! (?f i) = rev r ! i" if "i < ?n" for i
  proof -
    have "?f i = ?n - Suc i" using that by (simp add: rev_nth)
    then show ?thesis using that by (simp add: rev_nth)
  qed
  have setq: "set ?q = {0..<?n}" by simp
  have "filter (\<lambda>i. r ! i = k) (map ?f ?q) = map ?f (filter (\<lambda>i. r ! (?f i) = k) ?q)"
    by (simp add: filter_map comp_def)
  also have "filter (\<lambda>i. r ! (?f i) = k) ?q = filter (\<lambda>i. rev r ! i = k) ?q"
  proof (rule filter_cong[OF refl])
    fix x assume "x \<in> set ?q"
    then have "x < ?n" by simp
    then show "(r ! (?f x) = k) = (rev r ! x = k)" by (simp only: val)
  qed
  also have "\<dots> = filter (\<lambda>i. rev r ! i = k) [0..<?n]"
    by (rule sort_key_stable)
  also have "\<dots> = filter (\<lambda>i. r ! (?f i) = k) [0..<?n]"
    by (rule filter_cong[OF refl]) (simp add: val)
  also have "map ?f \<dots> = filter (\<lambda>i. r ! i = k) (map ?f [0..<?n])"
    by (simp add: filter_map comp_def)
  also have "map ?f [0..<?n] = rev [0..<?n]"
    using map_nth[of "rev [0..<?n]"] by simp
  finally have "filter (\<lambda>i. r ! i = k) (map ?f ?q) = filter (\<lambda>i. r ! i = k) (rev [0..<?n])" .
  then have "rev (filter (\<lambda>i. r ! i = k) (map ?f ?q)) = filter (\<lambda>i. r ! i = k) [0..<?n]"
    by (simp add: rev_filter del: upt_conv_Cons)
  then show ?thesis by (simp add: p rev_filter)
qed

section \<open>Net flow: unknown stage names\<close>

text \<open>
  When the configured committed column or the configured done column is not the name of a
  step of the configured workflow, \<^verbatim>\<open>NetFlowChartCalculator.run\<close> logs one error (for the
  committed column if it is unknown, otherwise for the done column) and returns
  \<^verbatim>\<open>None\<close>, whatever the CFD data. \<^verbatim>\<open>NetFlowChartCalculator.write\<close>, unlike the \<^verbatim>\<open>write\<close>
  of the waste and defects calculators, does not test the result for \<^verbatim>\<open>None\<close>.
\<close>

lemma net_flow_unknown_column:
  assumes "committed_column settings \<notin> set (map cycle_name (cycle settings))
           \<or> done_column settings \<notin> set (map cycle_name (cycle settings))"
  shows "NetFlowChartCalculator_run settings cfd_data
         = ([if committed_column settings \<notin> set (map cycle_name (cycle settings))
             then ''Committed column '' @ committed_column settings @ '' does not exist''
             else ''Done column '' @ done_column settings @ '' does not exist''],
            Inr None)"
  using assms by (auto simp: NetFlowChartCalculator_run_def Let_def)

lemma net_flow_write_none:
  assumes "net_flow_chart settings = Some file" and "file \<noteq> []"
  shows "NetFlowChartCalculator_write settings None = Inl AttributeError"
  using assms by (simp add: NetFlowChartCalculator_write_def)

lemma sibling_writes_none:
  "WasteCalculator_write settings None = Inr None"
  "DefectsCalculator_write argsort today None field_values window threshold sort_flag = Inr None"
  by (simp_all add: WasteCalculator_write_def DefectsCalculator_write_def)

lemma net_flow_same_column:
  "NetFlowChartCalculator_run (example_settings\<lparr>committed_column := ''Done''\<rparr>)
     \<lparr>index = [1], columns = [''Backlog'', ''Build'', ''Test'', ''Done''],
      rows = [[Some 3, Some 2, Some 1, Some 0]]\<rparr>
   = ([], Inl ValueError)"
  by (simp add: NetFlowChartCalculator_run_def example_settings_def)

text \<open>
  C9 (an unknown committed or done stage is reported and the calculation returns no result
  without raising, so that the rest of the run is unaffected): with the done column
  \<^verbatim>\<open>Finished\<close>, which is no stage of the workflow, and an output file configured,
  \<^verbatim>\<open>run\<close> logs the error and returns \<^verbatim>\<open>None\<close>, and \<^verbatim>\<open>write\<close> then raises
  \<^verbatim>\<open>AttributeError\<close> on \<^verbatim>\<open>len(chart_data.index)\<close>.
\<close>

theorem net_flow_unknown_column_write_raises:
  "NetFlowChartCalculator_run (example_settings\<lparr>done_column := ''Finished''\<rparr>)
     \<lparr>index = [1], columns = [''Backlog'', ''Build'', ''Test'', ''Done''],
      rows = [[Some 3, Some 2, Some 1, Some 0]]\<rparr>
   = ([''Done column Finished does not exist''], Inr None)
   \<and> NetFlowChartCalculator_write (example_settings\<lparr>done_column := ''Finished''\<rparr>) None
     = Inl AttributeError"
  by (simp add: net_flow_unknown_column net_flow_write_none[of _ "''netflow.png''"] example_settings_def)

theorem net_flow_unknown_column_write_raises_witness:
  "snd (NetFlowChartCalculator_run (example_settings\<lparr>done_column := ''Finished''\<rparr>)
          \<lparr>index = [1], columns = [''Backlog'', ''Build'', ''Test'', ''Done''],
           rows = [[Some 3, Some 2, Some 1, Some 0]]\<rparr>) = Inr None
   \<and> NetFlowChartCalculator_write (example_settings\<lparr>done_column := ''Finished''\<rparr>) None
     \<noteq> Inr None"
  using net_flow_unknown_column_write_raises by simp

section \<open>Waste: the columns of the table\<close>

lemma pivot_table_columns:
  "set (columns (pivot_table cd)) = {s. \<exists>r \<in> set cd. last_status r = Some s}"
  by (auto simp: pivot_table_def Let_def split: option.splits)

lemma resample_columns: "columns (resample aggfunc f) = columns f"
  by (simp add: resample_def Let_def)

lemma filter_by_window_columns: "columns (filter_by_window df w) = columns df"
  by (simp add: filter_by_window_def Let_def split: option.splits)

lemma filter_by_window_rows: "set (rows (filter_by_window df w)) \<subseteq> set (rows df)"
  by (auto simp: filter_by_window_def Let_def split: option.splits dest: in_set_dropD)

lemma reindex_columns_missing:
  assumes "j < length labels" and "labels ! j \<notin> set (columns df)"
    and "r \<in> set (rows (reindex_columns df labels))"
  shows "r ! j = None"
proof -
  obtain r' where r': "r = map (\<lambda>c. map_of (zip (columns df) r') c) labels"
    using assms(3) by (auto simp: reindex_columns_def)
  have "labels ! j \<notin> fst ` set (zip (columns df) r')"
    using assms(2) by (auto dest: set_zip_leftD)
  then have "map_of (zip (columns df) r') (labels ! j) = None"
    by (simp add: map_of_eq_None_iff)
  then show ?thesis using assms(1) by (simp add: r')
qed

text \<open>
  C8 (amended): when \<^verbatim>\<open>WasteCalculator.write\<close> reaches its table (an output file is
  configured, there is at least one item, and the backlog and done stages are configured
  stages), the columns of the table are the configured stage list without (the first
  occurrence of) the backlog stage and of the done stage, in the configured order, and
  every stage of that list from which no item was withdrawn is a column whose every cell
  is NaN.
\<close>

theorem waste_breakdown_columns:
  assumes "waste_chart settings = Some file" and "file \<noteq> []" and "cd \<noteq> []"
    and "backlog_column settings \<in> set (map cycle_name (cycle settings))"
    and "done_column settings \<in> set (remove1 (backlog_column settings) (map cycle_name (cycle settings)))"
  shows "\<exists>t. WasteCalculator_write settings (Some cd) = Inr (Some t)
           \<and> columns t = remove1 (done_column settings)
                            (remove1 (backlog_column settings) (map cycle_name (cycle settings)))
           \<and> (\<forall>j < length (columns t).
                  (\<forall>row \<in> set cd. last_status row \<noteq> Some (columns t ! j))
                  \<longrightarrow> (\<forall>r \<in> set (rows t). r ! j = None))"
proof -
  let ?names = "map cycle_name (cycle settings)"
  let ?labels = "remove1 (done_column settings) (remove1 (backlog_column settings) ?names)"
  let ?pivot = "pivot_table cd"
  let ?grouped = "resample agg_sum (?pivot\<lparr>index := map (waste_frequency settings) (index ?pivot)\<rparr>)"
  let ?t = "filter_by_window (reindex_columns ?grouped ?labels) (waste_window settings)"
  have w: "WasteCalculator_write settings (Some cd) = Inr (Some ?t)"
    using assms by (simp add: WasteCalculator_write_def list_remove_def Let_def)
  have c: "columns ?t = ?labels"
    by (simp add: filter_by_window_columns reindex_columns_def)
  have gc: "set (columns ?grouped) = {s. \<exists>r \<in> set cd. last_status r = Some s}"
    by (simp add: resample_columns pivot_table_columns)
  have n: "r ! j = None"
    if j: "j < length ?labels" and no: "\<forall>row \<in> set cd. last_status row \<noteq> Some (?labels ! j)"
      and r: "r \<in> set (rows ?t)" for j r
  proof -
    have "?labels ! j \<notin> set (columns ?grouped)" unfolding gc using no by blast
    moreover have "r \<in> set (rows (reindex_columns ?grouped ?labels))"
      using r filter_by_window_rows by blast
    ultimately show ?thesis using j by (intro reindex_columns_missing)
  qed
  show ?thesis using w c n by (intro exI[of _ ?t]) (simp only: c, blast)
qed

text \<open>
  C8 (as stated: a stage without withdrawals appears as a column whose every cell is 0).
  The columns come from \<^verbatim>\<open>.reindex(cycle_names, axis=1)\<close>, called without a fill value: a
  stage that is no column of the grouped counts gets NaN cells. With the stages Backlog,
  Build, Test, Done and one issue withdrawn from Build, the cell of Test is NaN
  (\<open>None\<close>), not the number 0 (\<open>Some 0\<close>).
\<close>

theorem waste_breakdown_zero_counterexample:
  "WasteCalculator_write example_settings
     (Some [\<lparr>key = ''A-1'', last_status = Some ''Build'', resolution = ''Withdrawn'', withdrawn_date = 100\<rparr>])
   = Inr (Some \<lparr>index = [3], columns = [''Build'', ''Test''], rows = [[Some 1, None]]\<rparr>)"
  by code_simp

theorem waste_breakdown_columns_witness:
  "(let cd = [\<lparr>key = ''A-1'', last_status = Some ''Build'', resolution = ''Withdrawn'', withdrawn_date = 100\<rparr>]
    in waste_chart example_settings = Some ''waste.png'' \<and> ''waste.png'' \<noteq> [] \<and> cd \<noteq> []
       \<and> backlog_column example_settings \<in> set (map cycle_name (cycle example_settings))
       \<and> done_column example_settings
            \<in> set (remove1 (backlog_column example_settings) (map cycle_name (cycle example_settings)))
       \<and> (\<exists>t. WasteCalculator_write example_settings (Some cd) = Inr (Some t)
              \<and> columns t = [''Build'', ''Test'']
              \<and> (\<forall>r \<in> set (rows t). r ! 1 = None)))"
proof -
  let ?cd = "[\<lparr>key = ''A-1'', last_status = Some ''Build'', resolution = ''Withdrawn'', withdrawn_date = 100\<rparr>]"
  have h1: "waste_chart example_settings = Some ''waste.png''" by (simp add: example_settings_def)
  have h2: "''waste.png'' \<noteq> []" by simp
  have h3: "?cd \<noteq> []" by simp
  have h4: "backlog_column example_settings \<in> set (map cycle_name (cycle example_settings))"
    by (simp add: example_settings_def)
  have h5: "done_column example_settings
            \<in> set (remove1 (backlog_column example_settings) (map cycle_name (cycle example_settings)))"
    by (simp add: example_settings_def)
  have l: "remove1 (done_column example_settings)
             (remove1 (backlog_column example_settings) (map cycle_name (cycle example_settings)))
           = [''Build'', ''Test'']"
    by (simp add: example_settings_def)
  from waste_breakdown_columns [OF h1 h2 h3 h4 h5]
  obtain t where t: "WasteCalculator_write example_settings (Some ?cd) = Inr (Some t)"
    and c: "columns t = [''Build'', ''Test'']"
    and z: "\<forall>j < length (columns t). (\<forall>row \<in> set ?cd. last_status row \<noteq> Some (columns t ! j))
                  \<longrightarrow> (\<forall>r \<in> set (rows t). r ! j = None)"
    unfolding l by blast
  have "\<forall>r \<in> set (rows t). r ! 1 = None"
    using z[rule_format, of 1] c by simp
  then show ?thesis unfolding Let_def using h1 h2 h3 h4 h5 t c by blast
qed

end
